theory Spec2Isabelle
  imports Complex_Main
begin

section \<open>Data model of src/lib/game.ts\<close>

text \<open>
  The engine is a set of pure functions over a \<open>GameState\<close> value. The TypeScript types
  are embedded one to one. \<open>Player = "X" | "O"\<close> is the datatype with the constructors
  \<open>PX\<close> and \<open>PO\<close> (the name \<open>O\<close> is taken by relation composition in HOL).
  A \<open>Cell\<close> is \<open>Player | null\<close>, here \<open>Player option\<close> with \<open>None\<close> for \<open>null\<close>.
  Indices and counters are JavaScript numbers that the engine only ever uses as
  array indices and counts; they are natural numbers here.
\<close>

datatype Player = PX | PO

type_synonym Cell = "Player option"

datatype BotLevel = none | easy | smart | hard

datatype RpsChoice = rock | paper | scissors | lizard | spock

text \<open>\<open>lastOutcome?: Player | "tie"\<close>; an absent or undefined field is \<open>None\<close>.\<close>

datatype Outcome = OutPlayer Player | tie

text \<open>\<open>winner: Player | "CAT" | null\<close>; \<open>null\<close> is \<open>None\<close>.\<close>

datatype Winner = Won Player | CAT

text \<open>
  \<open>picks: Partial<Record<Player, RpsChoice>>\<close> is a partial map from players to throws.
  \<open>FinalRpsState\<close> has the fields of \<open>RpsState\<close> and two more, so it is the
  extension of that record.
\<close>

record RpsState =
  picks :: "Player \<rightharpoonup> RpsChoice"
  lastOutcome :: "Outcome option"

record FinalRpsState = RpsState +
  score :: "Player \<Rightarrow> nat"
  rounds :: nat

text \<open>\<open>rps?: RpsState | null\<close>: the code reads it only through \<open>board.rps ?? ...\<close>, which
  treats \<open>null\<close> and \<open>undefined\<close> alike; both are \<open>None\<close>.\<close>

record MicroBoardState =
  cells :: "Cell list"
  winner :: "Winner option"
  rps :: "RpsState option"

record GameState =
  boards :: "MicroBoardState list"
  macroWinner :: "Player option"
  currentPlayer :: Player
  nextBoard :: "nat option"
  pendingRpsBoard :: "nat option"
  pendingFinalRps :: bool
  finalRps :: "FinalRpsState option"
  names :: "Player \<Rightarrow> string"
  bots :: "Player \<Rightarrow> BotLevel"

text \<open>
  A property read of \<open>undefined\<close> (an array read out of range followed by a field
  access) throws a \<open>TypeError\<close>; an assignment to or a read of a name that no scope
  declares throws a \<open>ReferenceError\<close> (the module is strict code). Functions that can
  throw return \<open>exn + 'a\<close>.
\<close>

datatype exn = TypeError | ReferenceError

text \<open>The JavaScript array read \<open>xs[i]\<close>: \<open>None\<close> is \<open>undefined\<close>, out of range.\<close>

definition elemAt :: "'a list \<Rightarrow> nat \<Rightarrow> 'a option" where
  "elemAt xs i = (if i < length xs then Some (xs ! i) else None)"

definition other :: "Player \<Rightarrow> Player" where
  "other p = (if p = PX then PO else PX)"

section \<open>Win detection\<close>

definition WIN_LINES :: "(nat \<times> nat \<times> nat) list" where
  "WIN_LINES =
     [(0, 1, 2), (3, 4, 5), (6, 7, 8), (0, 3, 6), (1, 4, 7), (2, 5, 8), (0, 4, 8), (2, 4, 6)]"

definition defaultNames :: "Player \<Rightarrow> string" where
  "defaultNames p = (case p of PX \<Rightarrow> ''Player X'' | PO \<Rightarrow> ''Player O'')"

definition createEmptyBoard :: MicroBoardState where
  "createEmptyBoard = \<lparr> cells = replicate 9 None, winner = None, rps = None \<rparr>"

definition createInitialState :: GameState where
  "createInitialState =
     \<lparr> boards = replicate 9 createEmptyBoard,
       macroWinner = None,
       currentPlayer = PX,
       nextBoard = None,
       pendingRpsBoard = None,
       pendingFinalRps = False,
       finalRps = None,
       names = defaultNames,
       bots = (\<lambda>p. none) \<rparr>"

definition boardIsFull :: "Cell list \<Rightarrow> bool" where
  "boardIsFull cs = list_all (\<lambda>c. c \<noteq> None) cs"

text \<open>
  The loop of \<open>detectWinner\<close> over the lines, in order. \<open>cells[a] && cells[a] === cells[b]
  && cells[a] === cells[c]\<close> holds when \<open>cells[a]\<close> is a player and the two other reads
  give the same player.
\<close>

fun detectWinnerIn :: "(nat \<times> nat \<times> nat) list \<Rightarrow> Cell list \<Rightarrow> Player option" where
  "detectWinnerIn [] cs = None"
| "detectWinnerIn ((a, b, c) # ls) cs =
     (case elemAt cs a of
        Some (Some p) \<Rightarrow>
          if elemAt cs b = Some (Some p) \<and> elemAt cs c = Some (Some p) then Some p
          else detectWinnerIn ls cs
      | _ \<Rightarrow> detectWinnerIn ls cs)"

definition detectWinner :: "Cell list \<Rightarrow> Player option" where
  "detectWinner cs = detectWinnerIn WIN_LINES cs"

definition macroCell :: "MicroBoardState \<Rightarrow> Cell" where
  "macroCell b = (case winner b of Some (Won p) \<Rightarrow> Some p | _ \<Rightarrow> None)"

definition determineMacroWinner :: "MicroBoardState list \<Rightarrow> Player option" where
  "determineMacroWinner bs = detectWinner (map macroCell bs)"

section \<open>Legal boards and the move engine\<close>

text \<open>\<open>boards.map((board, idx) => ({board, idx})).filter(board.winner === null).map(idx)\<close>\<close>

definition openBoards :: "MicroBoardState list \<Rightarrow> nat list" where
  "openBoards bs = map fst (filter (\<lambda>(idx, b). winner b = None) (enumerate 0 bs))"

definition getAllowedBoards :: "GameState \<Rightarrow> exn + nat list" where
  "getAllowedBoards s =
     (if pendingRpsBoard s \<noteq> None \<or> pendingFinalRps s then Inr []
      else case nextBoard s of
        None \<Rightarrow> Inr (openBoards (boards s))
      | Some n \<Rightarrow>
          (case elemAt (boards s) n of
             None \<Rightarrow> Inl TypeError
           | Some target \<Rightarrow>
               if winner target = None then Inr [n] else Inr (openBoards (boards s))))"

definition emptyRps :: RpsState where
  "emptyRps = \<lparr> picks = Map.empty, lastOutcome = None \<rparr>"

definition emptyFinalRps :: FinalRpsState where
  "emptyFinalRps = \<lparr> picks = Map.empty, lastOutcome = None, score = (\<lambda>p. 0), rounds = 0 \<rparr>"

text \<open>
  \<open>playMove\<close> returns \<open>{state, error?}\<close>: the pair of the state and the optional error
  string. \<open>board.cells[cellIndex] !== null\<close> is true for an occupied cell and for a read
  out of range (\<open>undefined\<close>), so both are rejected as taken.

  After the four checks the body computes the updated board, the macro winner and the
  next board into locals (lines 136-168), none of which touches the state passed in.
  It then uses the name \<open>pendingFinalRps\<close>, which \<open>playMove\<close> does not declare (its
  locals are \<open>pendingRpsBoard\<close>, \<open>nextBoard\<close> and \<open>macroWinner\<close>, lines 142-144) and which
  the module does not declare either (the only \<open>let pendingFinalRps\<close> is local to
  \<open>submitFinalRpsChoice\<close>, line 471): the assignment at line 170, when the arming test
  holds, and in any case the read in the object returned (line 184) throw a
  \<open>ReferenceError\<close>. So a move that passes the four checks never returns.
\<close>

definition playMove :: "GameState \<Rightarrow> nat \<Rightarrow> nat \<Rightarrow> exn + (GameState \<times> string option)" where
  "playMove s boardIndex cellIndex =
     (if pendingRpsBoard s \<noteq> None then Inr (s, Some ''Finish Rock-Paper-Scissors first.'')
      else case getAllowedBoards s of
        Inl e \<Rightarrow> Inl e
      | Inr allowed \<Rightarrow>
          if boardIndex \<notin> set allowed
          then Inr (s, Some ''You cannot play in that board right now.'')
          else if winner (boards s ! boardIndex) \<noteq> None
          then Inr (s, Some ''That board is already decided.'')
          else if elemAt (cells (boards s ! boardIndex)) cellIndex \<noteq> Some None
          then Inr (s, Some ''That square is already taken.'')
          else Inl ReferenceError)"

section \<open>Rock-Paper-Scissors-Lizard-Spock\<close>

definition RPS_RULES :: "RpsChoice \<Rightarrow> RpsChoice list" where
  "RPS_RULES a =
     (case a of
        rock \<Rightarrow> [scissors, lizard]
      | paper \<Rightarrow> [rock, spock]
      | scissors \<Rightarrow> [paper, lizard]
      | lizard \<Rightarrow> [spock, paper]
      | spock \<Rightarrow> [scissors, rock])"

datatype Cmp = CmpA | CmpB | CmpTie

definition compareRps :: "RpsChoice \<Rightarrow> RpsChoice \<Rightarrow> Cmp" where
  "compareRps a b = (if a = b then CmpTie else if b \<in> set (RPS_RULES a) then CmpA else CmpB)"

definition RPS_VERBS :: "RpsChoice \<Rightarrow> RpsChoice \<rightharpoonup> string" where
  "RPS_VERBS a =
     (case a of
        rock \<Rightarrow> [scissors \<mapsto> ''crushes'', lizard \<mapsto> ''crushes'']
      | paper \<Rightarrow> [rock \<mapsto> ''covers'', spock \<mapsto> ''disproves'']
      | scissors \<Rightarrow> [paper \<mapsto> ''cuts'', lizard \<mapsto> ''decapitates'']
      | lizard \<Rightarrow> [spock \<mapsto> ''poisons'', paper \<mapsto> ''eats'']
      | spock \<Rightarrow> [scissors \<mapsto> ''smashes'', rock \<mapsto> ''vaporizes''])"

definition rpsVerb :: "RpsChoice \<Rightarrow> RpsChoice \<Rightarrow> string" where
  "rpsVerb a b = (case RPS_VERBS a b of Some v \<Rightarrow> v | None \<Rightarrow> ''beats'')"

record ResolvedRps =
  boardIndex :: nat
  rwinner :: Player
  rpicks :: "Player \<rightharpoonup> RpsChoice"
  verb :: string

text \<open>
  The arming test and the two return statements that follow it, which
  \<open>submitRpsChoice\<close> has twice (lines 292-326 and 336-370): given the rebuilt boards and
  the locals, the state returned.
\<close>

definition rpsReturn ::
  "GameState \<Rightarrow> MicroBoardState list \<Rightarrow> nat option \<Rightarrow> Player option \<Rightarrow> Player \<Rightarrow> GameState" where
  "rpsReturn s updatedBoards pendingRpsBoard' macroWinner' currentPlayer' =
     (if macroWinner' = None \<and> pendingRpsBoard' = None
         \<and> list_all (\<lambda>b. winner b \<noteq> None) updatedBoards
      then s\<lparr> boards := updatedBoards,
              pendingRpsBoard := pendingRpsBoard',
              macroWinner := macroWinner',
              currentPlayer := currentPlayer',
              pendingFinalRps := True,
              finalRps := (case finalRps s of None \<Rightarrow> Some emptyFinalRps | Some f \<Rightarrow> Some f) \<rparr>
      else s\<lparr> boards := updatedBoards,
              pendingRpsBoard := pendingRpsBoard',
              macroWinner := macroWinner',
              currentPlayer := currentPlayer' \<rparr>)"

text \<open>\<open>board.rps ?? { picks: {}, lastOutcome: undefined }\<close>\<close>

definition existingRps :: "MicroBoardState \<Rightarrow> RpsState" where
  "existingRps brd = (case rps brd of None \<Rightarrow> emptyRps | Some r \<Rightarrow> r)"

definition submitRpsChoice ::
  "GameState \<Rightarrow> Player \<Rightarrow> RpsChoice \<Rightarrow> exn + (GameState \<times> string option \<times> ResolvedRps option)" where
  "submitRpsChoice s player choice =
     (case pendingRpsBoard s of
        None \<Rightarrow> Inr (s, Some ''No RPS pending.'', None)
      | Some bi \<Rightarrow>
          (case elemAt (boards s) bi of
             None \<Rightarrow> Inl TypeError
           | Some brd \<Rightarrow>
               let existing = existingRps brd;
                   picks' = (picks existing)(player \<mapsto> choice);
                   nextTurn = currentPlayer s;
                   updatedBoard = brd\<lparr> rps := Some (existing\<lparr> picks := picks' \<rparr>) \<rparr>
               in (case (picks' PX, picks' PO) of
                    (Some tX, Some tO) \<Rightarrow>
                      (case compareRps tX tO of
                         CmpTie \<Rightarrow>
                           let updatedBoard = updatedBoard
                                 \<lparr> rps := Some \<lparr> picks = Map.empty, lastOutcome = Some tie \<rparr> \<rparr>;
                               currentPlayer' = (if player = PX then PO else PX);
                               updatedBoards = (boards s)[bi := updatedBoard]
                           in Inr (rpsReturn s updatedBoards (pendingRpsBoard s) (macroWinner s)
                                     currentPlayer', None, None)
                       | outcome \<Rightarrow>
                           let winningPlayer = (if outcome = CmpA then PX else PO);
                               updatedBoard = updatedBoard
                                 \<lparr> winner := Some (Won winningPlayer),
                                   rps := Some \<lparr> picks = picks',
                                                lastOutcome = Some (OutPlayer winningPlayer) \<rparr> \<rparr>;
                               resolvedRps =
                                 \<lparr> boardIndex = bi,
                                   rwinner = winningPlayer,
                                   rpicks = picks',
                                   verb = (if outcome = CmpA then rpsVerb tX tO else rpsVerb tO tX) \<rparr>;
                               updatedBoards = (boards s)[bi := updatedBoard];
                               macroWinner' = determineMacroWinner updatedBoards
                           in Inr (rpsReturn s updatedBoards None macroWinner' nextTurn,
                                   None, Some resolvedRps))
                  | _ \<Rightarrow>
                      let currentPlayer' = (if player = PX then PO else PX);
                          updatedBoards = (boards s)[bi := updatedBoard]
                      in Inr (rpsReturn s updatedBoards (pendingRpsBoard s) (macroWinner s)
                                currentPlayer', None, None))))"

text \<open>
  \<open>submitFinalRpsChoice\<close> returns \<open>{state, error?, finalWinner?}\<close>. In the decisive
  branch \<open>finalRps\<close> is reassigned with the incremented score before the test
  \<open>finalRps.score[winningPlayer] + 1 >= 2\<close> reads it, so the test sees the new score.
\<close>

definition submitFinalRpsChoice ::
  "GameState \<Rightarrow> Player \<Rightarrow> RpsChoice \<Rightarrow> GameState \<times> string option \<times> Player option" where
  "submitFinalRpsChoice s player choice =
     (case (pendingFinalRps s, finalRps s) of
        (True, Some fr) \<Rightarrow>
          let picks' = (picks fr)(player \<mapsto> choice);
              finalRps0 = fr\<lparr> picks := picks' \<rparr>;
              currentPlayer' = (if player = PX then PO else PX)
          in (case (picks' PX, picks' PO) of
                (Some tX, Some tO) \<Rightarrow>
                  (case compareRps tX tO of
                     CmpTie \<Rightarrow>
                       (s\<lparr> finalRps := Some (finalRps0\<lparr> picks := Map.empty,
                                                         lastOutcome := Some tie \<rparr>),
                           pendingFinalRps := pendingFinalRps s,
                           macroWinner := macroWinner s,
                           currentPlayer := currentPlayer' \<rparr>, None, None)
                   | outcome \<Rightarrow>
                       let winningPlayer = (if outcome = CmpA then PX else PO);
                           finalRps1 = finalRps0
                             \<lparr> picks := Map.empty,
                               lastOutcome := Some (OutPlayer winningPlayer),
                               score := (score finalRps0)
                                 (winningPlayer := score finalRps0 winningPlayer + 1),
                               rounds := rounds finalRps0 + 1 \<rparr>;
                           ends = (score finalRps1 winningPlayer + 1 \<ge> 2)
                       in (s\<lparr> finalRps := Some finalRps1,
                              pendingFinalRps := (if ends then False else pendingFinalRps s),
                              macroWinner := (if ends then Some winningPlayer else macroWinner s),
                              currentPlayer := currentPlayer' \<rparr>,
                           None,
                           if ends then Some winningPlayer else None))
              | _ \<Rightarrow>
                  (s\<lparr> finalRps := Some finalRps0,
                      pendingFinalRps := pendingFinalRps s,
                      macroWinner := macroWinner s,
                      currentPlayer := currentPlayer' \<rparr>, None, None))
      | _ \<Rightarrow> (s, Some ''No final RPSLS pending.'', None))"

section \<open>Legal moves and the AI move selector\<close>

record Move =
  board :: nat
  cell :: nat

text \<open>The \<open>forEach\<close> of \<open>availableMoves\<close> over one board: the empty cells, in order.\<close>

definition emptyCellsOf :: "nat \<Rightarrow> Cell list \<Rightarrow> Move list" where
  "emptyCellsOf bi cs =
     map (\<lambda>(idx, c). \<lparr> board = bi, cell = idx \<rparr>)
       (filter (\<lambda>(idx, c). c = None) (enumerate 0 cs))"

definition availableMoves :: "GameState \<Rightarrow> exn + Move list" where
  "availableMoves s =
     (case getAllowedBoards s of
        Inl e \<Rightarrow> Inl e
      | Inr allowedBoards \<Rightarrow>
          Inr (concat (map (\<lambda>bi. emptyCellsOf bi (cells (boards s ! bi))) allowedBoards)))"

text \<open>
  Scores are JavaScript numbers: integers and halves of small size, which doubles hold
  exactly, and the two infinities that the search starts from.
\<close>

datatype Num = NegInfinity | Fin rat | PosInfinity

fun num_gt :: "Num \<Rightarrow> Num \<Rightarrow> bool" where
  "num_gt NegInfinity b = False"
| "num_gt (Fin x) NegInfinity = True"
| "num_gt (Fin x) (Fin y) = (x > y)"
| "num_gt (Fin x) PosInfinity = False"
| "num_gt PosInfinity PosInfinity = False"
| "num_gt PosInfinity b = True"

definition num_max :: "Num \<Rightarrow> Num \<Rightarrow> Num" where
  "num_max a b = (if num_gt b a then b else a)"

definition num_min :: "Num \<Rightarrow> Num \<Rightarrow> Num" where
  "num_min a b = (if num_gt a b then b else a)"

definition lineScore :: "Cell list \<Rightarrow> Player \<Rightarrow> nat \<times> nat \<times> nat \<Rightarrow> int" where
  "lineScore cs player l =
     (case l of (a, b, c) \<Rightarrow>
        let opponent = (if player = PX then PO else PX);
            values = [elemAt cs a, elemAt cs b, elemAt cs c];
            ours = length (filter (\<lambda>v. v = Some (Some player)) values);
            theirs = length (filter (\<lambda>v. v = Some (Some opponent)) values);
            empty = length (filter (\<lambda>v. v = Some None) values)
        in if theirs = 0 then
             (if ours = 3 then 100
              else if ours = 2 \<and> empty = 1 then 15
              else if ours = 1 \<and> empty = 2 then 3
              else 0)
           else if ours = 0 then
             (if theirs = 3 then - 100
              else if theirs = 2 \<and> empty = 1 then - 12
              else if theirs = 1 \<and> empty = 2 then - 2
              else 0)
           else 0)"

definition scoreLines :: "Cell list \<Rightarrow> Player \<Rightarrow> int" where
  "scoreLines cs player = fold (\<lambda>l sc. sc + lineScore cs player l) WIN_LINES 0"

definition evaluateState :: "GameState \<Rightarrow> Player \<Rightarrow> rat" where
  "evaluateState s player =
     (let opponent = (if player = PX then PO else PX) in
      if macroWinner s = Some player then 5000
      else if macroWinner s = Some opponent then - 5000
      else
        let macroCells = map macroCell (boards s);
            macroScore = of_int (scoreLines macroCells player) * 20;
            microScore =
              fold (\<lambda>(idx, b) microScore.
                      if winner b = Some CAT then microScore
                      else if winner b = Some (Won player) then microScore + 50
                      else if winner b = Some (Won opponent) then microScore - 50
                      else
                        let weight = (if nextBoard s = None \<or> nextBoard s = Some idx
                                      then 3 / 2 else 1)
                        in microScore + of_int (scoreLines (cells b) player) * weight)
                (enumerate 0 (boards s)) 0
        in macroScore + microScore)"

text \<open>\<open>JSON.parse(JSON.stringify(state))\<close>: a copy with the same contents.\<close>

definition cloneState :: "GameState \<Rightarrow> GameState" where
  "cloneState s = s"

text \<open>A \<open>for\<close> loop over a list that threads an accumulator and stops at a throw.\<close>

fun forEachE :: "('a \<Rightarrow> 'b \<Rightarrow> exn + 'b) \<Rightarrow> 'a list \<Rightarrow> 'b \<Rightarrow> exn + 'b" where
  "forEachE f [] acc = Inr acc"
| "forEachE f (x # xs) acc =
     (case f x acc of Inl e \<Rightarrow> Inl e | Inr acc' \<Rightarrow> forEachE f xs acc')"

text \<open>
  \<open>minimax(state, depth, maximizing, player)\<close>. The depth is a count that the callers
  start at 1 or 2 and that every call lowers by one, down to the test \<open>depth === 0\<close>.
\<close>

primrec minimax :: "GameState \<Rightarrow> nat \<Rightarrow> bool \<Rightarrow> Player \<Rightarrow> exn + Num" where
  "minimax s 0 maximizing player =
     (case macroWinner s of
        Some w \<Rightarrow> Inr (Fin (if w = player then 10000 else - 10000))
      | None \<Rightarrow> Inr (Fin (evaluateState s player)))"
| "minimax s (Suc d) maximizing player =
     (case macroWinner s of
        Some w \<Rightarrow> Inr (Fin (if w = player then 10000 else - 10000))
      | None \<Rightarrow>
          if pendingRpsBoard s \<noteq> None then Inr (Fin (evaluateState s player))
          else
            (case availableMoves s of
               Inl e \<Rightarrow> Inl e
             | Inr moves \<Rightarrow>
                 if length moves = 0 then Inr (Fin (evaluateState s player))
                 else if maximizing then
                   forEachE
                     (\<lambda>move best.
                        case playMove (cloneState s) (board move) (cell move) of
                          Inl e \<Rightarrow> Inl e
                        | Inr result \<Rightarrow>
                            (case minimax (fst result) d False player of
                               Inl e \<Rightarrow> Inl e
                             | Inr v \<Rightarrow> Inr (num_max best v)))
                     moves NegInfinity
                 else
                   forEachE
                     (\<lambda>move best.
                        case playMove (cloneState s) (board move) (cell move) of
                          Inl e \<Rightarrow> Inl e
                        | Inr result \<Rightarrow>
                            (case minimax (fst result) d True player of
                               Inl e \<Rightarrow> Inl e
                             | Inr v \<Rightarrow> Inr (num_min best v)))
                     moves PosInfinity))"

text \<open>The closure \<open>tryScore\<close> of \<open>chooseAIMove\<close>: the first move after which the macro
  winner is \<open>player\<close>.\<close>

fun tryScore :: "GameState \<Rightarrow> Move list \<Rightarrow> Player \<Rightarrow> exn + Move option" where
  "tryScore s [] player = Inr None"
| "tryScore s (move # moves) player =
     (case playMove (cloneState s) (board move) (cell move) of
        Inl e \<Rightarrow> Inl e
      | Inr result \<Rightarrow>
          if determineMacroWinner (boards (fst result)) = Some player then Inr (Some move)
          else tryScore s moves player)"

text \<open>
  \<open>chooseAIMove(state, level)\<close>, in three parts: the loop that scores every move by
  \<open>minimax\<close> and keeps the first move of the highest score (lines 408-419), the
  fallback after it (lines 423-451), and the function itself. The value of
  \<open>Math.random()\<close>, a number in \<open>[0, 1)\<close>, is the third argument. The result \<open>None\<close> is
  \<open>null\<close> (or the \<open>undefined\<close> of an array read out of range).
\<close>

definition searchBest ::
  "GameState \<Rightarrow> Move list \<Rightarrow> nat \<Rightarrow> Player \<Rightarrow> exn + (Move option \<times> Num)" where
  "searchBest s moves depth self =
     forEachE
       (\<lambda>move (bestMove, bestScore).
          case playMove (cloneState s) (board move) (cell move) of
            Inl e \<Rightarrow> Inl e
          | Inr result \<Rightarrow>
              (case minimax (fst result) (depth - 1) False self of
                 Inl e \<Rightarrow> Inl e
               | Inr sc \<Rightarrow>
                   Inr (if num_gt sc bestScore then (Some move, sc)
                        else (bestMove, bestScore))))
       moves (None, NegInfinity)"

definition fallbackMove :: "GameState \<Rightarrow> Move list \<Rightarrow> exn + Move option" where
  "fallbackMove s moves =
     (let self = currentPlayer s;
          opponent = (if currentPlayer s = PX then PO else PX)
      in case tryScore s moves self of
           Inl e \<Rightarrow> Inl e
         | Inr (Some winningMove) \<Rightarrow> Inr (Some winningMove)
         | Inr None \<Rightarrow>
             (case tryScore s moves opponent of
                Inl e \<Rightarrow> Inl e
              | Inr (Some blockingMove) \<Rightarrow> Inr (Some blockingMove)
              | Inr None \<Rightarrow>
                  (case find (\<lambda>m. cell m = 4) moves of
                     Some centerMove \<Rightarrow> Inr (Some centerMove)
                   | None \<Rightarrow>
                       (case find (\<lambda>m. cell m \<in> set [0, 2, 6, 8]) moves of
                          Some cornerMove \<Rightarrow> Inr (Some cornerMove)
                        | None \<Rightarrow> Inr (elemAt moves 0)))))"

definition chooseAIMove :: "GameState \<Rightarrow> BotLevel \<Rightarrow> rat \<Rightarrow> exn + Move option" where
  "chooseAIMove s level rnd =
     (case availableMoves s of
        Inl e \<Rightarrow> Inl e
      | Inr moves \<Rightarrow>
          if length moves = 0 then Inr None
          else if level = easy
          then Inr (elemAt moves (nat \<lfloor>rnd * of_nat (length moves)\<rfloor>))
          else if pendingRpsBoard s \<noteq> None then Inr None
          else
            let depth = (if level = hard then 3 else 2);
                self = currentPlayer s
            in (case searchBest s moves depth self of
                  Inl e \<Rightarrow> Inl e
                | Inr (Some bestMove, bestScore) \<Rightarrow> Inr (Some bestMove)
                | Inr (None, bestScore) \<Rightarrow> fallbackMove s moves))"

section \<open>Calls of the engine\<close>

text \<open>
  One call of a mutating operation that returns, from the state passed in to the state
  returned (whether or not the call reports an error).
\<close>

inductive engineStep :: "GameState \<Rightarrow> GameState \<Rightarrow> bool" where
  stepMove: "playMove s b c = Inr (s', e) \<Longrightarrow> engineStep s s'"
| stepMicro: "submitRpsChoice s p ch = Inr (s', e, r) \<Longrightarrow> engineStep s s'"
| stepFinal: "submitFinalRpsChoice s p ch = (s', e, w) \<Longrightarrow> engineStep s s'"

text \<open>The states reachable from \<open>createInitialState()\<close> by any sequence of such calls.\<close>

inductive reachable :: "GameState \<Rightarrow> bool" where
  reachInit: "reachable createInitialState"
| reachStep: "reachable s \<Longrightarrow> engineStep s s' \<Longrightarrow> reachable s'"

text \<open>
  Running a list of calls from a state, each on the state the last one returned. A call
  that throws returns no state; the run stays on the state it had.
\<close>

datatype Call = Play nat nat | Micro Player RpsChoice | Final Player RpsChoice

fun callState :: "GameState \<Rightarrow> Call \<Rightarrow> GameState" where
  "callState s (Play b c) = (case playMove s b c of Inl e \<Rightarrow> s | Inr r \<Rightarrow> fst r)"
| "callState s (Micro p ch) = (case submitRpsChoice s p ch of Inl e \<Rightarrow> s | Inr r \<Rightarrow> fst r)"
| "callState s (Final p ch) = fst (submitFinalRpsChoice s p ch)"

definition runCalls :: "GameState \<Rightarrow> Call list \<Rightarrow> GameState" where
  "runCalls s cs = foldl callState s cs"

definition wellFormed :: "GameState \<Rightarrow> bool" where
  "wellFormed s \<longleftrightarrow>
     length (boards s) = 9 \<and>
     list_all (\<lambda>b. length (cells b) = 9) (boards s) \<and>
     (case nextBoard s of None \<Rightarrow> True | Some n \<Rightarrow> n < 9) \<and>
     (case pendingRpsBoard s of None \<Rightarrow> True | Some n \<Rightarrow> n < 9)"

text \<open>The four modes of a state, each listed when its condition holds.\<close>

datatype Mode = MicroTiebreak | GalaxyTiebreak | MatchOver | NormalPlay

definition modes :: "GameState \<Rightarrow> Mode list" where
  "modes s =
     (if pendingRpsBoard s \<noteq> None then [MicroTiebreak] else []) @
     (if pendingFinalRps s then [GalaxyTiebreak] else []) @
     (if macroWinner s \<noteq> None then [MatchOver] else []) @
     (if pendingRpsBoard s = None \<and> \<not> pendingFinalRps s \<and> macroWinner s = None
      then [NormalPlay] else [])"

section \<open>Example states\<close>

text \<open>
  States written out by hand, as a caller can pass them in (the page takes the state
  saved in a cookie through \<open>parseState\<close>). A board is written as the string of its
  nine cells in order, \<open>X\<close>, \<open>O\<close> or a dot for an empty cell.
\<close>

definition cellOf :: "char \<Rightarrow> Cell" where
  "cellOf ch = (if ch = CHR ''X'' then Some PX else if ch = CHR ''O'' then Some PO else None)"

definition boardOf :: "string \<Rightarrow> Winner option \<Rightarrow> MicroBoardState" where
  "boardOf cs w = \<lparr> cells = map cellOf cs, winner = w, rps = None \<rparr>"

definition wonX :: MicroBoardState where
  "wonX = boardOf ''XXX.O.O..'' (Some (Won PX))"

definition wonO :: MicroBoardState where
  "wonO = boardOf ''OOO.X.X..'' (Some (Won PO))"

text \<open>A board filled without a line (X O X / O X O / O X O), as \<open>playMove\<close> means to
  leave it: winner \<open>CAT\<close> and an empty \<open>RpsState\<close>.\<close>

definition catBoard :: MicroBoardState where
  "catBoard = (boardOf ''XOXOXOOXO'' (Some CAT))\<lparr> rps := Some emptyRps \<rparr>"

text \<open>Board 4 is a cat's game waiting for its tiebreak; the other boards are empty; O
  is the current player (X placed the last mark, in cell 0 of board 4).\<close>

definition catState :: GameState where
  "catState =
     createInitialState
       \<lparr> boards := (replicate 9 createEmptyBoard)[4 := catBoard],
         currentPlayer := PO,
         nextBoard := Some 0,
         pendingRpsBoard := Some 4 \<rparr>"

text \<open>
  The boards 0 to 7 are won (X O X / X O O / O X and board 8), with no macro line;
  board 8 is open, with two marks of X in its top row, and X is to move. The move
  (8, 2) would win board 8 for X and close the last board without a macro line.
\<close>

definition lastOpenState :: GameState where
  "lastOpenState =
     createInitialState
       \<lparr> boards := [wonX, wonO, wonX, wonX, wonO, wonO, wonO, wonX,
                     boardOf ''XX.OO....'' None],
         currentPlayer := PX,
         nextBoard := None \<rparr>"

text \<open>The same eight boards, with board 8 a cat's game waiting for its tiebreak.\<close>

definition lastCatState :: GameState where
  "lastCatState =
     createInitialState
       \<lparr> boards := [wonX, wonO, wonX, wonX, wonO, wonO, wonO, wonX, catBoard],
         currentPlayer := PO,
         nextBoard := None,
         pendingRpsBoard := Some 8 \<rparr>"

text \<open>All nine boards are won, with no macro line (X O X / X O O / O X X), and the
  galaxy tiebreak is armed with the fresh \<open>FinalRpsState\<close>: no picks, score 0-0, no
  rounds (the state that lines 297-312 return).\<close>

definition armedState :: GameState where
  "armedState =
     createInitialState
       \<lparr> boards := [wonX, wonO, wonX, wonX, wonO, wonO, wonO, wonX, wonX],
         currentPlayer := PO,
         nextBoard := None,
         pendingFinalRps := True,
         finalRps := Some emptyFinalRps \<rparr>"

text \<open>X holds the boards 2 and 6, board 4 is a cat's game waiting for its tiebreak, and
  the other six boards are empty.\<close>

definition diagonalState :: GameState where
  "diagonalState =
     createInitialState
       \<lparr> boards := (replicate 9 createEmptyBoard)[2 := wonX, 6 := wonX, 4 := catBoard],
         currentPlayer := PO,
         nextBoard := Some 0,
         pendingRpsBoard := Some 4 \<rparr>"

section \<open>Invariants of the reachable states\<close>

definition finalExcl :: "GameState \<Rightarrow> bool" where
  "finalExcl s \<longleftrightarrow> (pendingFinalRps s \<longrightarrow> pendingRpsBoard s = None \<and> macroWinner s = None)"

definition modeInv :: "GameState \<Rightarrow> bool" where
  "modeInv s \<longleftrightarrow>
     finalExcl s \<and>
     (pendingRpsBoard s \<noteq> None \<longrightarrow> macroWinner s = None) \<and>
     (macroWinner s = None \<longrightarrow> determineMacroWinner (boards s) = None)"

text \<open>The picks of the pending board \<open>bi\<close> once \<open>p\<close> has thrown \<open>ch\<close> (line 246).\<close>

definition thrownPicks :: "GameState \<Rightarrow> nat \<Rightarrow> Player \<Rightarrow> RpsChoice \<Rightarrow> (Player \<rightharpoonup> RpsChoice)" where
  "thrownPicks s bi p ch = (picks (existingRps (boards s ! bi)))(p \<mapsto> ch)"

text \<open>The state of a round: \<open>None\<close> while a throw is missing, else the comparison of the
  throw of X with the throw of O.\<close>

definition roundOutcome :: "(Player \<rightharpoonup> RpsChoice) \<Rightarrow> Cmp option" where
  "roundOutcome pk =
     (case (pk PX, pk PO) of (Some tX, Some tO) \<Rightarrow> Some (compareRps tX tO) | _ \<Rightarrow> None)"

text \<open>
  The legal boards in the words of the spec (section 4.2, precondition 2): with no
  tiebreak pending, when \<open>nextBoard\<close> is an index and that board is still open, only that
  board; otherwise every board that is still open.
\<close>

definition legalBoard :: "GameState \<Rightarrow> nat \<Rightarrow> bool" where
  "legalBoard s b \<longleftrightarrow>
     pendingRpsBoard s = None \<and> \<not> pendingFinalRps s \<and>
     b < length (boards s) \<and> winner (boards s ! b) = None \<and>
     (case nextBoard s of
        None \<Rightarrow> True
      | Some n \<Rightarrow> winner (boards s ! n) = None \<longrightarrow> b = n)"

text \<open>Every open board of the state has an empty cell.\<close>

definition openHasEmpty :: "GameState \<Rightarrow> bool" where
  "openHasEmpty s \<longleftrightarrow> list_all (\<lambda>b. winner b = None \<longrightarrow> \<not> boardIsFull (cells b)) (boards s)"

section \<open>Serialization\<close>

text \<open>
  \<open>serializeState\<close> is \<open>JSON.stringify(state)\<close> and \<open>parseState\<close> starts with
  \<open>JSON.parse(raw)\<close>. The text and its grammar belong to the JavaScript runtime; the
  model works on the values that \<open>JSON.parse\<close> returns, which are also the values that
  \<open>JSON.stringify\<close> can write: \<open>null\<close>, booleans, numbers, strings, arrays and objects
  (their properties in order). There is no \<open>undefined\<close> among them: \<open>JSON.stringify\<close>
  leaves out a property whose value is \<open>undefined\<close>, so an object with such a property
  and the object without it are the same value here.
\<close>

datatype json =
  JNull | JBool bool | JNum rat | JStr string | JArr "json list" | JObj "(string \<times> json) list"

fun playerJson :: "Player \<Rightarrow> json" where
  "playerJson PX = JStr ''X''"
| "playerJson PO = JStr ''O''"

fun choiceJson :: "RpsChoice \<Rightarrow> json" where
  "choiceJson rock = JStr ''rock''"
| "choiceJson paper = JStr ''paper''"
| "choiceJson scissors = JStr ''scissors''"
| "choiceJson lizard = JStr ''lizard''"
| "choiceJson spock = JStr ''spock''"

fun outcomeJson :: "Outcome \<Rightarrow> json" where
  "outcomeJson (OutPlayer p) = playerJson p"
| "outcomeJson tie = JStr ''tie''"

fun winnerJson :: "Winner \<Rightarrow> json" where
  "winnerJson (Won p) = playerJson p"
| "winnerJson CAT = JStr ''CAT''"

fun botJson :: "BotLevel \<Rightarrow> json" where
  "botJson none = JStr ''none''"
| "botJson easy = JStr ''easy''"
| "botJson smart = JStr ''smart''"
| "botJson hard = JStr ''hard''"

text \<open>A value that may be \<open>null\<close>.\<close>

fun nullable :: "('a \<Rightarrow> json) \<Rightarrow> 'a option \<Rightarrow> json" where
  "nullable f None = JNull"
| "nullable f (Some x) = f x"

definition natJson :: "nat \<Rightarrow> json" where
  "natJson n = JNum (of_nat n)"

text \<open>A record over the two players, and a partial one (a key only where a value is).\<close>

definition perPlayer :: "('a \<Rightarrow> json) \<Rightarrow> (Player \<Rightarrow> 'a) \<Rightarrow> json" where
  "perPlayer f r = JObj [(''X'', f (r PX)), (''O'', f (r PO))]"

definition picksJson :: "(Player \<rightharpoonup> RpsChoice) \<Rightarrow> json" where
  "picksJson pk =
     JObj ((case pk PX of None \<Rightarrow> [] | Some c \<Rightarrow> [(''X'', choiceJson c)]) @
           (case pk PO of None \<Rightarrow> [] | Some c \<Rightarrow> [(''O'', choiceJson c)]))"

definition rpsFields :: "'a RpsState_scheme \<Rightarrow> (string \<times> json) list" where
  "rpsFields r =
     (''picks'', picksJson (picks r)) #
     (case lastOutcome r of None \<Rightarrow> [] | Some oc \<Rightarrow> [(''lastOutcome'', outcomeJson oc)])"

definition rpsJson :: "RpsState \<Rightarrow> json" where
  "rpsJson r = JObj (rpsFields r)"

definition finalRpsJson :: "FinalRpsState \<Rightarrow> json" where
  "finalRpsJson f =
     JObj (rpsFields f @
           [(''score'', perPlayer natJson (score f)), (''rounds'', natJson (rounds f))])"

definition boardJson :: "MicroBoardState \<Rightarrow> json" where
  "boardJson b =
     JObj [(''cells'', JArr (map (nullable playerJson) (cells b))),
           (''winner'', nullable winnerJson (winner b)),
           (''rps'', nullable rpsJson (rps b))]"

definition stateFields :: "GameState \<Rightarrow> (string \<times> json) list" where
  "stateFields s =
     [(''boards'', JArr (map boardJson (boards s))),
      (''macroWinner'', nullable playerJson (macroWinner s)),
      (''currentPlayer'', playerJson (currentPlayer s)),
      (''nextBoard'', nullable natJson (nextBoard s)),
      (''pendingRpsBoard'', nullable natJson (pendingRpsBoard s)),
      (''pendingFinalRps'', JBool (pendingFinalRps s)),
      (''finalRps'', nullable finalRpsJson (finalRps s)),
      (''names'', perPlayer JStr (names s)),
      (''bots'', perPlayer botJson (bots s))]"

text \<open>
  \<open>serializeState(state)\<close>: the value that \<open>JSON.stringify\<close> writes and that \<open>JSON.parse\<close>
  reads back from the text.
\<close>

definition serializeState :: "GameState \<Rightarrow> json" where
  "serializeState s = JObj (stateFields s)"

text \<open>The JavaScript truth value of a parsed value.\<close>

fun truthy :: "json \<Rightarrow> bool" where
  "truthy JNull = False"
| "truthy (JBool b) = b"
| "truthy (JNum n) = (n \<noteq> 0)"
| "truthy (JStr t) = (t \<noteq> [])"
| "truthy (JArr xs) = True"
| "truthy (JObj kv) = True"

text \<open>The property \<open>length\<close> of a parsed value that is not \<open>null\<close>; \<open>None\<close> is \<open>undefined\<close>.\<close>

fun lengthOf :: "json \<Rightarrow> json option" where
  "lengthOf (JArr xs) = Some (JNum (of_nat (length xs)))"
| "lengthOf (JStr t) = Some (JNum (of_nat (length t)))"
| "lengthOf (JObj kv) = map_of kv ''length''"
| "lengthOf v = None"

text \<open>The object spread \<open>{ ...base, ...over }\<close>: the properties of \<open>base\<close> in their order,
  each with the value \<open>over\<close> gives it if it has one, then the other properties of \<open>over\<close>.\<close>

definition spread :: "(string \<times> json) list \<Rightarrow> (string \<times> json) list \<Rightarrow> (string \<times> json) list" where
  "spread base over =
     map (\<lambda>(k, v). (k, case map_of over k of Some v' \<Rightarrow> v' | None \<Rightarrow> v)) base @
     filter (\<lambda>(k, v). k \<notin> set (map fst base)) over"

text \<open>
  \<open>parseState(raw)\<close>, on the outcome of \<open>JSON.parse(raw)\<close>. The argument is \<open>None\<close> in the
  three cases in which the code has no parsed value: \<open>raw\<close> is \<open>null\<close> or \<open>undefined\<close>,
  \<open>raw\<close> is the empty string, or \<open>JSON.parse\<close> throws (the \<open>catch\<close>). Reading
  \<open>parsed.boards\<close> of \<open>null\<close> throws as well and ends in the same \<open>catch\<close>; a number, a
  string, a boolean or an array has no property \<open>boards\<close>. The result is the object
  returned, which the code types as \<open>GameState\<close> without a check.
\<close>

definition parseState :: "json option \<Rightarrow> json" where
  "parseState parsed =
     (case parsed of
        Some (JObj kv) \<Rightarrow>
          (case map_of kv ''boards'' of
             None \<Rightarrow> serializeState createInitialState
           | Some bv \<Rightarrow>
               if \<not> truthy bv \<or> lengthOf bv \<noteq> Some (JNum 9)
               then serializeState createInitialState
               else JObj (spread (stateFields createInitialState) kv))
      | _ \<Rightarrow> serializeState createInitialState)"

text \<open>The test that \<open>parseState\<close> makes on a parsed value, as a predicate: it is an
  object whose \<open>boards\<close> is truthy and has the \<open>length\<close> 9.\<close>

definition hasNineBoards :: "json \<Rightarrow> bool" where
  "hasNineBoards parsed =
     (case parsed of
        JObj kv \<Rightarrow>
          (case map_of kv ''boards'' of
             Some bv \<Rightarrow> truthy bv \<and> lengthOf bv = Some (JNum 9)
           | None \<Rightarrow> False)
      | _ \<Rightarrow> False)"

section \<open>Basic facts\<close>

lemma elemAt_Some_iff: "elemAt xs i = Some x \<longleftrightarrow> i < length xs \<and> xs ! i = x"
  by (auto simp: elemAt_def)

lemma openBoards_set: "set (openBoards bs) = {i. i < length bs \<and> winner (bs ! i) = None}"
  by (force simp: openBoards_def in_set_enumerate_eq)

lemma getAllowedBoards_mem:
  assumes "getAllowedBoards s = Inr al" and "i \<in> set al"
  shows "i < length (boards s) \<and> winner (boards s ! i) = None
         \<and> pendingRpsBoard s = None \<and> \<not> pendingFinalRps s"
  using assms
  by (auto simp: getAllowedBoards_def openBoards_set elemAt_Some_iff
           split: if_splits option.splits)

lemma getAllowedBoards_total:
  assumes "\<And>n. nextBoard s = Some n \<Longrightarrow> n < length (boards s)"
  shows "\<exists>al. getAllowedBoards s = Inr al"
  using assms
  by (auto simp: getAllowedBoards_def elemAt_def split: option.splits)

lemma playMove_Inr_cases:
  assumes "playMove s b c = Inr (s', e)"
  shows "e \<noteq> None \<and> s' = s"
  using assms
  by (auto simp: playMove_def split: if_splits sum.splits)

lemma playMove_accepted:
  assumes "getAllowedBoards s = Inr al" "b \<in> set al"
    "elemAt (cells (boards s ! b)) c = Some None"
  shows "playMove s b c = Inl ReferenceError"
  using assms getAllowedBoards_mem[OF assms(1,2)]
  by (simp add: playMove_def)

lemma macroCells_update:
  assumes "macroCell b' = macroCell (bs ! i)"
  shows "map macroCell (bs[i := b']) = map macroCell bs"
proof (cases "i < length bs")
  case True
  then show ?thesis using assms
    by (simp add: map_update list_update_same_conv)
next
  case False
  then show ?thesis by (simp add: list_update_beyond)
qed

lemma determineMacroWinner_update:
  "macroCell b' = macroCell (bs ! i) \<Longrightarrow> determineMacroWinner (bs[i := b']) = determineMacroWinner bs"
  by (simp add: determineMacroWinner_def macroCells_update)

lemma submitRpsChoice_cases:
  assumes "submitRpsChoice s p ch = Inr (s', e, r)"
  shows "(pendingRpsBoard s = None \<and> s' = s \<and> e = Some ''No RPS pending.'' \<and> r = None) \<or>
    (\<exists>bi. pendingRpsBoard s = Some bi \<and> bi < length (boards s) \<and> e = None \<and>
       ((((picks (existingRps (boards s ! bi)))(p \<mapsto> ch)) PX = None
          \<or> ((picks (existingRps (boards s ! bi)))(p \<mapsto> ch)) PO = None) \<and> r = None \<and>
         s' = rpsReturn s
               ((boards s)[bi := (boards s ! bi)
                  \<lparr> rps := Some ((existingRps (boards s ! bi))
                               \<lparr> picks := (picks (existingRps (boards s ! bi)))(p \<mapsto> ch) \<rparr>) \<rparr>])
               (Some bi) (macroWinner s) (other p)
        \<or> (\<exists>tX tO. ((picks (existingRps (boards s ! bi)))(p \<mapsto> ch)) PX = Some tX \<and>
              ((picks (existingRps (boards s ! bi)))(p \<mapsto> ch)) PO = Some tO \<and>
              (compareRps tX tO = CmpTie \<and> r = None \<and>
               s' = rpsReturn s
                     ((boards s)[bi := (boards s ! bi)
                        \<lparr> rps := Some \<lparr> picks = Map.empty, lastOutcome = Some tie \<rparr> \<rparr>])
                     (Some bi) (macroWinner s) (other p)
               \<or> compareRps tX tO \<noteq> CmpTie \<and> r \<noteq> None \<and>
                 (\<exists>w. s' = rpsReturn s
                     ((boards s)[bi := (boards s ! bi)
                        \<lparr> winner := Some (Won w),
                          rps := Some \<lparr> picks = (picks (existingRps (boards s ! bi)))(p \<mapsto> ch),
                                       lastOutcome = Some (OutPlayer w) \<rparr> \<rparr>])
                     None
                     (determineMacroWinner ((boards s)[bi := (boards s ! bi)
                        \<lparr> winner := Some (Won w),
                          rps := Some \<lparr> picks = (picks (existingRps (boards s ! bi)))(p \<mapsto> ch),
                                       lastOutcome = Some (OutPlayer w) \<rparr> \<rparr>]))
                     (currentPlayer s))))))"
  using assms
  by (auto simp: submitRpsChoice_def Let_def elemAt_Some_iff other_def
           split: option.splits Cmp.splits if_splits)

lemma rpsReturn_fields:
  "boards (rpsReturn s bs pr mw cp) = bs"
  "pendingRpsBoard (rpsReturn s bs pr mw cp) = pr"
  "macroWinner (rpsReturn s bs pr mw cp) = mw"
  "currentPlayer (rpsReturn s bs pr mw cp) = cp"
  "nextBoard (rpsReturn s bs pr mw cp) = nextBoard s"
  "pendingFinalRps (rpsReturn s bs pr mw cp) =
     (mw = None \<and> pr = None \<and> list_all (\<lambda>b. winner b \<noteq> None) bs \<or> pendingFinalRps s)"
  "finalRps (rpsReturn s bs pr mw cp) =
     (if mw = None \<and> pr = None \<and> list_all (\<lambda>b. winner b \<noteq> None) bs
      then (case finalRps s of None \<Rightarrow> Some emptyFinalRps | Some f \<Rightarrow> Some f)
      else finalRps s)"
  by (auto simp: rpsReturn_def)

lemma submitFinalRpsChoice_cases:
  assumes "submitFinalRpsChoice s p ch = (s', e, w)"
  shows "(e = Some ''No final RPSLS pending.'' \<and> s' = s \<and> w = None
            \<and> (\<not> pendingFinalRps s \<or> finalRps s = None)) \<or>
         (e = None \<and> pendingFinalRps s \<and> finalRps s \<noteq> None \<and> boards s' = boards s
            \<and> pendingRpsBoard s' = pendingRpsBoard s \<and> nextBoard s' = nextBoard s
            \<and> currentPlayer s' = other p
            \<and> (w = None \<and> macroWinner s' = macroWinner s \<and> pendingFinalRps s'
                \<or> w \<noteq> None \<and> macroWinner s' = w \<and> \<not> pendingFinalRps s'))"
  using assms
  by (auto simp: submitFinalRpsChoice_def Let_def other_def
           split: option.splits Cmp.splits if_splits bool.splits prod.splits)

lemma finalExcl_playMove:
  assumes "finalExcl s" "playMove s b c = Inr (s', e)"
  shows "finalExcl s'"
  using playMove_Inr_cases[OF assms(2)] assms(1) by simp

lemma finalExcl_submitRps:
  assumes "finalExcl s" "submitRpsChoice s p ch = Inr (s', e, r)"
  shows "finalExcl s'"
  using submitRpsChoice_cases[OF assms(2)] assms(1)
  by (auto simp: finalExcl_def rpsReturn_fields)

lemma finalExcl_submitFinal:
  assumes "finalExcl s" "submitFinalRpsChoice s p ch = (s', e, w)"
  shows "finalExcl s'"
  using submitFinalRpsChoice_cases[OF assms(2)] assms(1)
  by (auto simp: finalExcl_def)

lemma finalExcl_init: "finalExcl createInitialState"
  by (simp add: finalExcl_def createInitialState_def)

lemma modeInv_init: "modeInv createInitialState"
  by (simp add: modeInv_def finalExcl_init)
     (simp add: createInitialState_def determineMacroWinner_def detectWinner_def WIN_LINES_def
        createEmptyBoard_def macroCell_def elemAt_def numeral_eq_Suc)

lemma modeInv_playMove:
  assumes "modeInv s" "playMove s b c = Inr (s', e)"
  shows "modeInv s'"
  using playMove_Inr_cases[OF assms(2)] assms(1) by simp

lemma macroCell_rps_update [simp]: "macroCell (brd\<lparr> rps := r \<rparr>) = macroCell brd"
  by (simp add: macroCell_def)

lemma modeInv_submitRps:
  assumes "modeInv s" "submitRpsChoice s p ch = Inr (s', e, r)"
  shows "modeInv s'"
proof -
  have fe: "finalExcl s'" using assms finalExcl_submitRps by (auto simp: modeInv_def)
  show ?thesis
    using submitRpsChoice_cases[OF assms(2)] assms(1) fe
    by (auto simp: modeInv_def rpsReturn_fields determineMacroWinner_update)
qed

lemma modeInv_submitFinal:
  assumes "modeInv s" "submitFinalRpsChoice s p ch = (s', e, w)"
  shows "modeInv s'"
proof -
  have fe: "finalExcl s'" using assms finalExcl_submitFinal by (auto simp: modeInv_def)
  show ?thesis
    using submitFinalRpsChoice_cases[OF assms(2)] assms(1) fe
    by (auto simp: modeInv_def finalExcl_def)
qed

lemma modeInv_step: "engineStep s s' \<Longrightarrow> modeInv s \<Longrightarrow> modeInv s'"
  by (induction rule: engineStep.induct)
     (auto intro: modeInv_playMove modeInv_submitRps modeInv_submitFinal)

lemma reachable_modeInv: "reachable s \<Longrightarrow> modeInv s"
  by (induction rule: reachable.induct) (auto intro: modeInv_init modeInv_step)

lemma modeInv_modes: "modeInv s \<Longrightarrow> length (modes s) = 1"
  by (auto simp: modeInv_def finalExcl_def modes_def)

lemma callState_step: "engineStep s (callState s cl) \<or> callState s cl = s"
proof (cases cl)
  case (Play b c)
  then show ?thesis
    by (cases "playMove s b c") (auto intro: engineStep.stepMove[of s b c "fst r" "snd r" for r])
next
  case (Micro p ch)
  then show ?thesis
    by (cases "submitRpsChoice s p ch")
       (auto intro: engineStep.stepMicro[of s p ch "fst r" "fst (snd r)" "snd (snd r)" for r])
next
  case (Final p ch)
  then show ?thesis
    by (auto intro: engineStep.stepFinal[of s p ch _ "fst (snd (submitFinalRpsChoice s p ch))"
           "snd (snd (submitFinalRpsChoice s p ch))"])
qed

lemma submitRpsChoice_pending:
  assumes "pendingRpsBoard s = Some bi" "bi < length (boards s)"
  shows "submitRpsChoice s p ch =
     Inr (case roundOutcome (thrownPicks s bi p ch) of
            None \<Rightarrow>
              (rpsReturn s
                 ((boards s)[bi := (boards s ! bi)
                    \<lparr> rps := Some ((existingRps (boards s ! bi))
                                 \<lparr> picks := thrownPicks s bi p ch \<rparr>) \<rparr>])
                 (Some bi) (macroWinner s) (other p), None, None)
          | Some CmpTie \<Rightarrow>
              (rpsReturn s
                 ((boards s)[bi := (boards s ! bi)
                    \<lparr> rps := Some \<lparr> picks = Map.empty, lastOutcome = Some tie \<rparr> \<rparr>])
                 (Some bi) (macroWinner s) (other p), None, None)
          | Some outcome \<Rightarrow>
              (let w = (if outcome = CmpA then PX else PO);
                   bs = (boards s)[bi := (boards s ! bi)
                          \<lparr> winner := Some (Won w),
                            rps := Some \<lparr> picks = thrownPicks s bi p ch,
                                         lastOutcome = Some (OutPlayer w) \<rparr> \<rparr>]
               in (rpsReturn s bs None (determineMacroWinner bs) (currentPlayer s), None,
                   Some \<lparr> boardIndex = bi, rwinner = w, rpicks = thrownPicks s bi p ch,
                          verb = (if outcome = CmpA
                                  then rpsVerb (the (thrownPicks s bi p ch PX)) (the (thrownPicks s bi p ch PO))
                                  else rpsVerb (the (thrownPicks s bi p ch PO)) (the (thrownPicks s bi p ch PX))) \<rparr>)))"
  using assms
  by (auto simp: submitRpsChoice_def Let_def elemAt_def other_def roundOutcome_def thrownPicks_def
           split: option.splits Cmp.splits)





lemma wellFormed_init: "wellFormed createInitialState"
  by (simp add: wellFormed_def createInitialState_def createEmptyBoard_def list_all_iff)



lemma playMove_not_allowed:
  "pendingRpsBoard s = None \<Longrightarrow> getAllowedBoards s = Inr al \<Longrightarrow> b \<notin> set al
   \<Longrightarrow> playMove s b c = Inr (s, Some ''You cannot play in that board right now.'')"
  by (simp add: playMove_def)

lemma playMove_closed:
  assumes "wellFormed s" "pendingRpsBoard s = None" "winner (boards s ! b) \<noteq> None"
  shows "playMove s b c = Inr (s, Some ''You cannot play in that board right now.'')"
proof -
  have "\<And>n. nextBoard s = Some n \<Longrightarrow> n < length (boards s)"
    using assms(1) by (auto simp: wellFormed_def)
  then obtain al where al: "getAllowedBoards s = Inr al"
    using getAllowedBoards_total by blast
  have "b \<notin> set al" using getAllowedBoards_mem[OF al, of b] assms(3) by auto
  then show ?thesis using al assms(2) by (rule_tac playMove_not_allowed)
qed


lemma submitRps_none_pending:
  "pendingRpsBoard s = None \<Longrightarrow> submitRpsChoice s p ch = Inr (s, Some ''No RPS pending.'', None)"
  by (simp add: submitRpsChoice_def)

lemma submitFinal_none_pending:
  "\<not> pendingFinalRps s \<or> finalRps s = None
   \<Longrightarrow> submitFinalRpsChoice s p ch = (s, Some ''No final RPSLS pending.'', None)"
  by (auto simp: submitFinalRpsChoice_def split: bool.splits option.splits)



lemma engineStep_closed:
  assumes "engineStep s s'"
  shows "length (boards s') = length (boards s)
         \<and> (\<forall>i < length (boards s). winner (boards s ! i) \<noteq> None
               \<longrightarrow> cells (boards s' ! i) = cells (boards s ! i) \<and> winner (boards s' ! i) \<noteq> None)"
  using assms
proof (induction rule: engineStep.induct)
  case (stepMove s b c s' e)
  from playMove_Inr_cases[OF this] show ?case by simp
next
  case (stepMicro s p ch s' e r)
  from submitRpsChoice_cases[OF this] show ?case
    by (auto simp: rpsReturn_fields nth_list_update)
next
  case (stepFinal s p ch s' e w)
  from submitFinalRpsChoice_cases[OF this] show ?case by auto
qed

lemma engineSteps_closed:
  assumes "rtranclp engineStep s s'"
  shows "length (boards s') = length (boards s)
         \<and> (\<forall>i < length (boards s). winner (boards s ! i) \<noteq> None
               \<longrightarrow> cells (boards s' ! i) = cells (boards s ! i) \<and> winner (boards s' ! i) \<noteq> None)"
  using assms
proof (induction rule: rtranclp_induct)
  case base
  then show ?case by simp
next
  case (step y z)
  then show ?case using engineStep_closed[of y z] by auto
qed

lemma submitRps_cells:
  assumes "submitRpsChoice s p ch = Inr (t, e, r)"
  shows "map cells (boards t) = map cells (boards s)"
  using submitRpsChoice_cases[OF assms]
  by (auto simp: rpsReturn_fields map_update list_update_same_conv)

lemma submitFinal_boards: "boards (fst (submitFinalRpsChoice s p ch)) = boards s"
  using submitFinalRpsChoice_cases[of s p ch "fst (submitFinalRpsChoice s p ch)"
      "fst (snd (submitFinalRpsChoice s p ch))" "snd (snd (submitFinalRpsChoice s p ch))"]
  by auto

lemma playMove_into_closed:
  assumes "playMove s i c = Inr (t, e)" "i < length (boards s)" "winner (boards s ! i) \<noteq> None"
  shows "e \<noteq> None \<and> t = s"
  using playMove_Inr_cases[OF assms(1)] by simp

lemma engineSteps_foldl: "rtranclp engineStep s (foldl callState s cs)"
proof (induction cs arbitrary: s)
  case Nil
  then show ?case by simp
next
  case (Cons cl cs)
  have "rtranclp engineStep s (callState s cl)"
    using callState_step[of s cl] by auto
  then show ?case using Cons.IH[of "callState s cl"] by (simp add: rtranclp_trans)
qed

lemma emptyCellsOf_mem:
  "\<lparr> board = b, cell = c \<rparr> \<in> set (emptyCellsOf bi cs) \<longleftrightarrow> b = bi \<and> elemAt cs c = Some None"
  by (auto simp: emptyCellsOf_def in_set_enumerate_eq elemAt_Some_iff image_iff)

lemma emptyCellsOf_Nil: "emptyCellsOf bi cs = [] \<longleftrightarrow> boardIsFull cs"
proof -
  have "emptyCellsOf bi cs = [] \<longleftrightarrow> (\<forall>i < length cs. cs ! i \<noteq> None)"
    by (auto simp: emptyCellsOf_def filter_empty_conv in_set_enumerate_eq)
  then show ?thesis by (simp add: boardIsFull_def list_all_length)
qed

lemma availableMoves_Inr:
  "getAllowedBoards s = Inr al \<Longrightarrow>
   availableMoves s = Inr (concat (map (\<lambda>bi. emptyCellsOf bi (cells (boards s ! bi))) al))"
  by (simp add: availableMoves_def)

lemma availableMoves_mem:
  assumes "getAllowedBoards s = Inr al"
  shows "\<exists>ms. availableMoves s = Inr ms
           \<and> (\<forall>b c. \<lparr> board = b, cell = c \<rparr> \<in> set ms
                 \<longleftrightarrow> b \<in> set al \<and> elemAt (cells (boards s ! b)) c = Some None)"
  unfolding availableMoves_Inr[OF assms] by (auto simp: emptyCellsOf_mem)

lemma availableMoves_total:
  assumes "wellFormed s"
  shows "\<exists>ms. availableMoves s = Inr ms"
proof -
  have "\<And>n. nextBoard s = Some n \<Longrightarrow> n < length (boards s)"
    using assms by (auto simp: wellFormed_def)
  then obtain al where "getAllowedBoards s = Inr al"
    using getAllowedBoards_total by blast
  then show ?thesis by (simp add: availableMoves_def)
qed

lemma openBoards_Nil: "openBoards bs = [] \<longleftrightarrow> list_all (\<lambda>b. winner b \<noteq> None) bs"
proof -
  have "openBoards bs = [] \<longleftrightarrow> set (openBoards bs) = {}" by simp
  also have "\<dots> \<longleftrightarrow> (\<forall>i < length bs. winner (bs ! i) \<noteq> None)"
    unfolding openBoards_set by auto
  finally show ?thesis by (simp add: list_all_length)
qed

lemma availableMoves_Nil:
  assumes "wellFormed s" "openHasEmpty s"
  shows "availableMoves s = Inr [] \<longleftrightarrow>
         pendingRpsBoard s \<noteq> None \<or> pendingFinalRps s \<or> list_all (\<lambda>b. winner b \<noteq> None) (boards s)"
proof -
  have nb: "\<And>n. nextBoard s = Some n \<Longrightarrow> n < length (boards s)"
    using assms(1) by (auto simp: wellFormed_def)
  then obtain al where al: "getAllowedBoards s = Inr al"
    using getAllowedBoards_total by blast
  have full: "\<And>bi. bi \<in> set al \<Longrightarrow> \<not> boardIsFull (cells (boards s ! bi))"
    using getAllowedBoards_mem[OF al] assms(2)
    by (auto simp: openHasEmpty_def list_all_length)
  have "availableMoves s = Inr [] \<longleftrightarrow> al = []"
    unfolding availableMoves_Inr[OF al] using full
    by (cases al) (auto simp: emptyCellsOf_Nil)
  also have "al = [] \<longleftrightarrow>
     pendingRpsBoard s \<noteq> None \<or> pendingFinalRps s \<or> list_all (\<lambda>b. winner b \<noteq> None) (boards s)"
    using al nb
    by (auto simp: getAllowedBoards_def openBoards_Nil elemAt_def list_all_length
             split: if_splits option.splits)
  finally show ?thesis .
qed

lemma forEachE_invariant:
  assumes "forEachE f xs acc = Inr r" "P acc"
    and "\<And>x a a'. x \<in> set xs \<Longrightarrow> P a \<Longrightarrow> f x a = Inr a' \<Longrightarrow> P a'"
  shows "P r"
  using assms
proof (induction xs arbitrary: acc)
  case Nil
  then show ?case by simp
next
  case (Cons x xs)
  from Cons.prems(1) obtain acc' where s: "f x acc = Inr acc'" "forEachE f xs acc' = Inr r"
    by (auto split: sum.splits)
  have "P acc'" using Cons.prems(2,3) s(1) by auto
  then show ?case using Cons.IH[OF s(2)] Cons.prems(3) by auto
qed

lemma tryScore_mem: "tryScore s xs p = Inr (Some m) \<Longrightarrow> m \<in> set xs"
  by (induction xs) (auto split: sum.splits if_splits)

lemma find_mem: "find P xs = Some x \<Longrightarrow> x \<in> set xs"
  by (auto simp: find_Some_iff)

lemma random_index:
  assumes "0 \<le> (rnd :: rat)" "rnd < 1" "0 < n"
  shows "nat \<lfloor>rnd * of_nat n\<rfloor> < n"
proof -
  have "rnd * of_nat n < of_nat n" using assms by simp
  then have "\<lfloor>rnd * of_nat n\<rfloor> < int n" by (simp add: floor_less_iff)
  moreover have "0 \<le> \<lfloor>rnd * of_nat n\<rfloor>" using assms by simp
  ultimately show ?thesis by linarith
qed

lemma availableMoves_pending:
  "pendingRpsBoard s \<noteq> None \<Longrightarrow> availableMoves s = Inr []"
  by (simp add: availableMoves_def getAllowedBoards_def)

lemma searchBest_mem:
  assumes "searchBest s ms d self = Inr (Some m, sc)"
  shows "m \<in> set ms"
proof -
  have "case (Some m, sc) of (bm, bs) \<Rightarrow> (\<forall>x. bm = Some x \<longrightarrow> x \<in> set ms)"
    by (rule forEachE_invariant[OF assms[unfolded searchBest_def],
          where P = "\<lambda>(bm, bs). \<forall>x. bm = Some x \<longrightarrow> x \<in> set ms"])
       (auto split: sum.splits if_splits)
  then show ?thesis by simp
qed

lemma fallbackMove_mem:
  assumes "fallbackMove s ms = Inr r" "ms \<noteq> []"
  shows "\<exists>m. r = Some m \<and> m \<in> set ms"
proof (cases "tryScore s ms (currentPlayer s)")
  case (Inl e)
  then show ?thesis using assms(1) by (simp add: fallbackMove_def)
next
  case t1: (Inr w)
  show ?thesis
  proof (cases w)
    case (Some m)
    then have "r = Some m" using assms(1) t1 by (simp add: fallbackMove_def)
    then show ?thesis using tryScore_mem t1 Some by blast
  next
    case w: None
    show ?thesis
    proof (cases "tryScore s ms (if currentPlayer s = PX then PO else PX)")
      case (Inl e)
      then show ?thesis using assms(1) t1 w by (simp add: fallbackMove_def)
    next
      case t2: (Inr bl)
      show ?thesis
      proof (cases bl)
        case (Some m)
        then have "r = Some m" using assms(1) t1 w t2 by (simp add: fallbackMove_def)
        then show ?thesis using tryScore_mem t2 Some by blast
      next
        case bl: None
        show ?thesis
        proof (cases "find (\<lambda>m. cell m = 4) ms")
          case (Some m)
          then have "r = Some m" using assms(1) t1 w t2 bl by (simp add: fallbackMove_def)
          then show ?thesis using find_mem Some by fast
        next
          case center: None
          show ?thesis
          proof (cases "find (\<lambda>m. cell m \<in> set [0, 2, 6, 8]) ms")
            case (Some m)
            then have "r = Some m"
              using assms(1) t1 w t2 bl center by (simp add: fallbackMove_def)
            then show ?thesis using find_mem Some by fast
          next
            case None
            then have "r = elemAt ms 0"
              using assms(1) t1 w t2 bl center by (simp add: fallbackMove_def)
            then show ?thesis using assms(2) by (simp add: elemAt_def)
          qed
        qed
      qed
    qed
  qed
qed

lemma chooseAIMove_sound:
  assumes "0 \<le> rnd" "rnd < 1" "chooseAIMove s level rnd = Inr r"
  shows "\<exists>ms. availableMoves s = Inr ms \<and> (case r of None \<Rightarrow> ms = [] | Some m \<Rightarrow> m \<in> set ms)"
proof -
  obtain ms where ms: "availableMoves s = Inr ms"
    using assms(3) by (cases "availableMoves s") (auto simp: chooseAIMove_def)
  have "case r of None \<Rightarrow> ms = [] | Some m \<Rightarrow> m \<in> set ms"
  proof (cases "ms = []")
    case True
    then show ?thesis using assms(3) ms by (simp add: chooseAIMove_def)
  next
    case nonempty: False
    then have idx: "nat \<lfloor>rnd * of_nat (length ms)\<rfloor> < length ms"
      using random_index[OF assms(1,2), of "length ms"] by simp
    have quiet: "pendingRpsBoard s = None"
      using availableMoves_pending[of s] ms nonempty by (cases "pendingRpsBoard s") auto
    show ?thesis
    proof (cases "level = easy")
      case True
      then show ?thesis using assms(3) ms nonempty idx
        by (auto simp: chooseAIMove_def elemAt_def)
    next
      case noteasy: False
      let ?d = "if level = hard then 3 else 2 :: nat"
      have c: "(case searchBest s ms ?d (currentPlayer s) of
                  Inl e \<Rightarrow> Inl e
                | Inr (Some bestMove, bestScore) \<Rightarrow> Inr (Some bestMove)
                | Inr (None, bestScore) \<Rightarrow> fallbackMove s ms) = Inr r"
        using assms(3) ms nonempty noteasy quiet
        by (simp add: chooseAIMove_def Let_def)
      then obtain bm bs where sb: "searchBest s ms ?d (currentPlayer s) = Inr (bm, bs)"
        by (cases "searchBest s ms ?d (currentPlayer s)") auto
      show ?thesis
      proof (cases bm)
        case None
        then have "fallbackMove s ms = Inr r" using c sb by simp
        then show ?thesis using fallbackMove_mem nonempty by fastforce
      next
        case (Some m)
        then have "r = Some m" using c sb by simp
        then show ?thesis using searchBest_mem sb Some by fastforce
      qed
    qed
  qed
  then show ?thesis using ms by blast
qed

lemma availableMoves_throw:
  assumes "availableMoves s = Inr ms" "m \<in> set ms"
  shows "playMove (cloneState s) (board m) (cell m) = Inl ReferenceError"
proof -
  obtain al where al: "getAllowedBoards s = Inr al"
    using assms(1) by (cases "getAllowedBoards s") (auto simp: availableMoves_def)
  have eq: "\<lparr> board = board m, cell = cell m \<rparr> = m" by (cases m) simp
  have "\<lparr> board = board m, cell = cell m \<rparr> \<in> set ms" unfolding eq by (rule assms(2))
  then have "board m \<in> set al \<and> elemAt (cells (boards s ! board m)) (cell m) = Some None"
    using availableMoves_mem[OF al] assms(1) by auto
  then show ?thesis using playMove_accepted[OF al] by (simp add: cloneState_def)
qed

lemma searchBest_throw:
  assumes "availableMoves s = Inr ms" "ms \<noteq> []"
  shows "searchBest s ms d self = Inl ReferenceError"
proof -
  obtain m rest where ms: "ms = m # rest" using assms(2) by (cases ms) auto
  have "playMove (cloneState s) (board m) (cell m) = Inl ReferenceError"
    using availableMoves_throw[OF assms(1), of m] ms by simp
  then show ?thesis by (simp add: searchBest_def ms)
qed

lemma chooseAIMove_throw:
  assumes "availableMoves s = Inr ms" "ms \<noteq> []" "level \<noteq> easy"
  shows "chooseAIMove s level rnd = Inl ReferenceError"
proof -
  have quiet: "pendingRpsBoard s = None"
    using availableMoves_pending[of s] assms(1,2) by (cases "pendingRpsBoard s") auto
  show ?thesis
    using assms quiet searchBest_throw[OF assms(1,2)]
    by (simp add: chooseAIMove_def Let_def)
qed

lemma chooseAIMove_easy_total:
  assumes "wellFormed s"
  shows "\<exists>r. chooseAIMove s easy rnd = Inr r"
proof -
  obtain ms where "availableMoves s = Inr ms" using availableMoves_total[OF assms] by blast
  then show ?thesis by (simp add: chooseAIMove_def)
qed

lemma legalBoard_allowed:
  assumes "wellFormed s" "getAllowedBoards s = Inr al"
  shows "b \<in> set al \<longleftrightarrow> legalBoard s b"
  using assms
  by (auto simp: getAllowedBoards_def legalBoard_def wellFormed_def openBoards_set elemAt_def
           split: if_splits option.splits)

lemma reachable_only_init: "reachable s \<Longrightarrow> s = createInitialState"
proof (induction rule: reachable.induct)
  case reachInit
  then show ?case by simp
next
  case (reachStep s s')
  have p: "pendingRpsBoard createInitialState = None" "\<not> pendingFinalRps createInitialState"
    by (simp_all add: createInitialState_def)
  from reachStep(2) reachStep(3) show ?case
  proof (induction rule: engineStep.induct)
    case (stepMove s b c s' e)
    then show ?case using playMove_Inr_cases by blast
  next
    case (stepMicro s p ch s' e r)
    then show ?case using submitRps_none_pending[of createInitialState p ch] p by simp
  next
    case (stepFinal s p ch s' e w)
    then show ?case using submitFinal_none_pending[of createInitialState p ch] p by simp
  qed
qed

lemma callState_Micro_step:
  assumes "pendingRpsBoard s = Some bi" "bi < length (boards s)"
  shows "engineStep s (callState s (Micro p ch))"
proof -
  obtain t e r where "submitRpsChoice s p ch = Inr (t, e, r)"
    unfolding submitRpsChoice_pending[OF assms] by (metis prod_cases3)
  then show ?thesis using engineStep.stepMicro by fastforce
qed

lemma submitRpsChoice_turn:
  assumes "pendingRpsBoard s = Some bi" and "bi < length (boards s)"
  shows "\<exists>s' r. submitRpsChoice s p ch = Inr (s', None, r)
           \<and> (r = None \<longleftrightarrow> roundOutcome (thrownPicks s bi p ch) \<in> {None, Some CmpTie})
           \<and> (r = None \<longrightarrow> currentPlayer s' = other p)
           \<and> (r \<noteq> None \<longrightarrow> currentPlayer s' = currentPlayer s)"
  by (cases "roundOutcome (thrownPicks s bi p ch)")
     (auto simp: submitRpsChoice_pending[OF assms] rpsReturn_fields Let_def split: Cmp.splits)

lemma playerJson_inj: "playerJson a = playerJson b \<longleftrightarrow> a = b"
  by (cases a; cases b) simp_all

lemma choiceJson_inj: "choiceJson a = choiceJson b \<longleftrightarrow> a = b"
  by (cases a; cases b) simp_all

lemma playerJson_JStr:
  "playerJson p = JStr t \<longleftrightarrow> t = (if p = PX then ''X'' else ''O'')"
  "JStr t = playerJson p \<longleftrightarrow> t = (if p = PX then ''X'' else ''O'')"
  by (cases p; auto)+

lemma outcomeJson_inj: "outcomeJson a = outcomeJson b \<longleftrightarrow> a = b"
  by (cases a; cases b) (auto simp: playerJson_inj playerJson_JStr)

lemma winnerJson_inj: "winnerJson a = winnerJson b \<longleftrightarrow> a = b"
  by (cases a; cases b) (auto simp: playerJson_inj playerJson_JStr)

lemma botJson_inj: "botJson a = botJson b \<longleftrightarrow> a = b"
  by (cases a; cases b) simp_all

lemma natJson_inj: "natJson a = natJson b \<longleftrightarrow> a = b"
  by (simp add: natJson_def)

lemma nullable_inj:
  assumes "\<And>x y. f x = f y \<longleftrightarrow> x = y" "\<And>x. f x \<noteq> JNull"
  shows "nullable f a = nullable f b \<longleftrightarrow> a = b"
  using assms by (cases a; cases b) (auto simp: eq_commute[of JNull])

lemma playerJson_notnull: "playerJson p \<noteq> JNull"
  by (cases p) simp_all

lemma winnerJson_notnull: "winnerJson w \<noteq> JNull"
  by (cases w) (simp_all add: playerJson_notnull)

lemma perPlayer_inj:
  assumes "\<And>x y. f x = f y \<longleftrightarrow> x = y"
  shows "perPlayer f r = perPlayer f r' \<longleftrightarrow> r = r'"
proof
  assume "perPlayer f r = perPlayer f r'"
  then have "r PX = r' PX" "r PO = r' PO" using assms by (simp_all add: perPlayer_def)
  then have "r p = r' p" for p by (cases p) simp_all
  then show "r = r'" by (rule ext)
qed simp

lemma picksJson_inj: "picksJson a = picksJson b \<longleftrightarrow> a = b"
proof
  assume e: "picksJson a = picksJson b"
  have "a PX = b PX" "a PO = b PO"
    using e by (auto simp: picksJson_def choiceJson_inj split: option.splits)
  then have "a p = b p" for p by (cases p) simp_all
  then show "a = b" by (rule ext)
qed simp

lemma rpsFields_inj:
  "rpsFields r = rpsFields r' \<longleftrightarrow> picks r = picks r' \<and> lastOutcome r = lastOutcome r'"
  by (auto simp: rpsFields_def picksJson_inj outcomeJson_inj split: option.splits)

lemma rpsJson_inj: "rpsJson r = rpsJson r' \<longleftrightarrow> r = r'"
  by (auto simp: rpsJson_def rpsFields_inj)

lemma length_rpsFields: "length (rpsFields r) = (if lastOutcome r = None then 1 else 2)"
  by (simp add: rpsFields_def split: option.splits)

lemma finalRpsJson_inj: "finalRpsJson f = finalRpsJson f' \<longleftrightarrow> f = f'"
proof
  assume e: "finalRpsJson f = finalRpsJson f'"
  then have len: "length (rpsFields f) = length (rpsFields f')"
    by (auto simp: finalRpsJson_def dest: arg_cong[where f = length])
  from e have "rpsFields f = rpsFields f'" "score f = score f'" "rounds f = rounds f'"
    using len by (auto simp: finalRpsJson_def perPlayer_inj natJson_inj)
  then show "f = f'" by (auto simp: rpsFields_inj)
qed simp

lemma rpsJson_notnull: "rpsJson r \<noteq> JNull" and finalRpsJson_notnull: "finalRpsJson f \<noteq> JNull"
  and natJson_notnull: "natJson n \<noteq> JNull"
  by (simp_all add: rpsJson_def finalRpsJson_def natJson_def)

lemma boardJson_inj: "boardJson b = boardJson b' \<longleftrightarrow> b = b'"
proof
  assume e: "boardJson b = boardJson b'"
  have "inj (nullable playerJson)"
    by (rule injI) (simp add: nullable_inj playerJson_inj playerJson_notnull)
  then have "cells b = cells b'" using e by (simp add: boardJson_def inj_map_eq_map)
  moreover have "winner b = winner b'"
    using e by (simp add: boardJson_def nullable_inj winnerJson_inj winnerJson_notnull)
  moreover have "rps b = rps b'"
    using e by (simp add: boardJson_def nullable_inj rpsJson_inj rpsJson_notnull)
  ultimately show "b = b'" by simp
qed simp

lemma serializeState_inj: "serializeState s = serializeState s' \<longleftrightarrow> s = s'"
proof
  assume e: "serializeState s = serializeState s'"
  have "inj boardJson" by (rule injI) (simp add: boardJson_inj)
  then have "boards s = boards s'"
    using e by (simp add: serializeState_def stateFields_def inj_map_eq_map)
  moreover have "macroWinner s = macroWinner s'" "currentPlayer s = currentPlayer s'"
    "nextBoard s = nextBoard s'" "pendingRpsBoard s = pendingRpsBoard s'"
    "pendingFinalRps s = pendingFinalRps s'" "finalRps s = finalRps s'"
    "names s = names s'" "bots s = bots s'"
    using e
    by (simp_all add: serializeState_def stateFields_def nullable_inj playerJson_inj
          playerJson_notnull natJson_inj natJson_notnull finalRpsJson_inj finalRpsJson_notnull
          perPlayer_inj botJson_inj)
  ultimately show "s = s'" by simp
qed simp

lemma spread_stateFields:
  "spread (stateFields t) (stateFields s) = stateFields s"
  by (simp add: spread_def stateFields_def)

lemma parseState_roundtrip:
  assumes "length (boards s) = 9"
  shows "parseState (Some (serializeState s)) = serializeState s"
proof -
  have "map_of (stateFields s) ''boards'' = Some (JArr (map boardJson (boards s)))"
    by (simp add: stateFields_def)
  then show ?thesis using assms
    by (simp add: parseState_def serializeState_def spread_stateFields)
qed

lemma map_of_map_value:
  "map_of (map (\<lambda>(k, v). (k, f k v)) xs) k = map_option (f k) (map_of xs k)"
  by (induction xs) auto

lemma map_of_filter_key:
  "map_of (filter (\<lambda>(k, v). P k) xs) k = (if P k then map_of xs k else None)"
  by (induction xs) auto

lemma spread_lookup:
  "map_of (spread base over) k =
     (case map_of over k of Some v \<Rightarrow> Some v | None \<Rightarrow> map_of base k)"
proof (cases "map_of base k")
  case None
  then have "k \<notin> set (map fst base)" by (simp add: map_of_eq_None_iff)
  then show ?thesis using None
    by (simp add: spread_def map_add_def map_of_map_value map_of_filter_key split: option.splits)
next
  case (Some v)
  then have "k \<in> set (map fst base)" by (metis map_of_eq_None_iff option.distinct(1) set_map)
  then show ?thesis using Some
    by (simp add: spread_def map_add_def map_of_map_value map_of_filter_key split: option.splits)
qed

lemma parseState_fallback:
  "\<not> hasNineBoards parsed \<Longrightarrow> parseState (Some parsed) = serializeState createInitialState"
  by (auto simp: parseState_def hasNineBoards_def split: json.splits option.splits)

lemma parseState_merge:
  "hasNineBoards (JObj kv) \<Longrightarrow>
   parseState (Some (JObj kv)) = JObj (spread (stateFields createInitialState) kv)"
  by (auto simp: parseState_def hasNineBoards_def split: option.splits)

section \<open>C1: the four modes\<close>

text \<open>
  C1. In every state reachable from \<open>createInitialState()\<close> by calls of \<open>playMove\<close>,
  \<open>submitRpsChoice\<close> and \<open>submitFinalRpsChoice\<close>, exactly one of the four modes holds.
  (A move that \<open>playMove\<close> accepts throws, so no call leaves the initial state; the
  second part shows that the mutual exclusion is also kept by every call from any state
  in which it holds and \<open>macroWinner\<close> agrees with the boards.)
\<close>

theorem C1_exactly_one_mode:
  "(reachable s \<longrightarrow> length (modes s) = 1)
   \<and> (modeInv s \<and> engineStep s s' \<longrightarrow> modeInv s' \<and> length (modes s') = 1)"
  using reachable_modeInv[of s] modeInv_modes[of s] modeInv_step[of s s'] modeInv_modes[of s']
  by blast

theorem C1_exactly_one_mode_witness:
  "reachable createInitialState
   \<and> modes createInitialState = [NormalPlay]
   \<and> modeInv catState
   \<and> engineStep catState (runCalls catState [Micro PO rock])
   \<and> modes (runCalls catState [Micro PO rock]) = [MicroTiebreak]"
proof -
  have r: "reachable createInitialState" by (rule reachable.reachInit)
  have m0: "modes createInitialState = [NormalPlay]" by code_simp
  have inv: "modeInv catState" by code_simp
  have p: "pendingRpsBoard catState = Some 4" "4 < length (boards catState)" by code_simp+
  have st: "engineStep catState (runCalls catState [Micro PO rock])"
    using callState_Micro_step[OF p] by (simp add: runCalls_def)
  have m1: "modes (runCalls catState [Micro PO rock]) = [MicroTiebreak]" by code_simp
  show ?thesis
    using C1_exactly_one_mode[of createInitialState] C1_exactly_one_mode[of catState
        "runCalls catState [Micro PO rock]"] r m0 inv st m1
    by simp
qed

section \<open>C2: the end of the galaxy tiebreak\<close>

text \<open>
  C2 says that \<open>submitFinalRpsChoice\<close> ends the galaxy tiebreak at the round in which a
  score first reaches 2 and never earlier. The code ends it at the first decisive
  round: the test \<open>finalRps.score[winningPlayer] + 1 >= 2\<close> reads the score that the
  statement before it has already incremented. In \<open>armedState\<close> the galaxy tiebreak is
  armed with the score 0-0; X throws rock, O throws scissors, and the call reports X as
  \<open>finalWinner\<close>, with \<open>macroWinner\<close> X, the tiebreak cleared and the score 1-0 after
  one round.
\<close>

theorem C2_first_decisive_round_ends:
  "pendingFinalRps armedState
   \<and> map_option (\<lambda>f. (score f PX, score f PO, rounds f)) (finalRps armedState) = Some (0, 0, 0)
   \<and> snd (snd (submitFinalRpsChoice (runCalls armedState [Final PX rock]) PO scissors)) = Some PX
   \<and> macroWinner (runCalls armedState [Final PX rock, Final PO scissors]) = Some PX
   \<and> \<not> pendingFinalRps (runCalls armedState [Final PX rock, Final PO scissors])
   \<and> map_option (\<lambda>f. (score f PX, score f PO, rounds f))
        (finalRps (runCalls armedState [Final PX rock, Final PO scissors]))
       = Some (1, 0, 1)"
  by code_simp

section \<open>C3: arming the galaxy tiebreak\<close>

text \<open>
  C3 says that \<open>playMove\<close> arms the galaxy tiebreak when a legal move closes the last
  board without a macro winner. The code does not: in \<open>lastOpenState\<close> the legal
  moves are the five empty cells of board 8; the move (8, 2) of X would complete the top
  row of board 8, and with board 8 won by X the nine boards show no macro line. The
  call \<open>playMove(lastOpenState, 8, 2)\<close> throws a \<open>ReferenceError\<close> (the assignment
  \<open>pendingFinalRps = true\<close> of line 170 has no declaration to assign to) and returns no
  state.
\<close>

theorem C3_closing_move_throws:
  "availableMoves lastOpenState = Inr (map (\<lambda>c. \<lparr> board = 8, cell = c \<rparr>) [2, 5, 6, 7, 8])
   \<and> elemAt (cells (boards lastOpenState ! 8)) 2 = Some None
   \<and> currentPlayer lastOpenState = PX
   \<and> detectWinner ((cells (boards lastOpenState ! 8))[2 := Some PX]) = Some PX
   \<and> determineMacroWinner
        ((boards lastOpenState)[8 := (boards lastOpenState ! 8)\<lparr> winner := Some (Won PX) \<rparr>]) = None
   \<and> playMove lastOpenState 8 2 = Inl ReferenceError"
proof -
  have a: "getAllowedBoards lastOpenState = Inr [8]" by code_simp
  have b: "elemAt (cells (boards lastOpenState ! 8)) 2 = Some None" by code_simp
  have c: "currentPlayer lastOpenState = PX"
    "detectWinner ((cells (boards lastOpenState ! 8))[2 := Some PX]) = Some PX"
    "determineMacroWinner
        ((boards lastOpenState)[8 := (boards lastOpenState ! 8)\<lparr> winner := Some (Won PX) \<rparr>]) = None"
    by code_simp+
  have m: "availableMoves lastOpenState
             = Inr (map (\<lambda>c. \<lparr> board = 8, cell = c \<rparr>) [2, 5, 6, 7, 8])"
    by code_simp
  have "playMove lastOpenState 8 2 = Inl ReferenceError"
    using playMove_accepted[OF a _ b] by simp
  then show ?thesis using m b c by simp
qed

section \<open>C4: the legal moves\<close>

text \<open>
  C4, as amended. On a well-formed state \<open>availableMoves\<close> returns exactly the empty
  cells of the currently legal boards: none while a tiebreak is pending; else only the
  board \<open>nextBoard\<close> names when that board is open; else every open board. When every
  open board has an empty cell, it returns the empty sequence exactly when a tiebreak is
  pending (\<open>pendingRpsBoard\<close> set or \<open>pendingFinalRps\<close> true) or every micro-board is
  closed. It does not look at \<open>macroWinner\<close>: with a macro winner set and open boards
  left it still lists moves.
\<close>

theorem C4_legal_moves_amended:
  "wellFormed s \<longrightarrow>
     (\<exists>ms. availableMoves s = Inr ms
        \<and> (\<forall>b c. \<lparr> board = b, cell = c \<rparr> \<in> set ms
              \<longleftrightarrow> legalBoard s b \<and> elemAt (cells (boards s ! b)) c = Some None)
        \<and> (openHasEmpty s \<longrightarrow>
             (ms = [] \<longleftrightarrow>
                pendingRpsBoard s \<noteq> None \<or> pendingFinalRps s
                \<or> list_all (\<lambda>b. winner b \<noteq> None) (boards s))))"
proof
  assume w: "wellFormed s"
  have "\<And>n. nextBoard s = Some n \<Longrightarrow> n < length (boards s)"
    using w by (auto simp: wellFormed_def)
  then obtain al where al: "getAllowedBoards s = Inr al"
    using getAllowedBoards_total by blast
  obtain ms where ms: "availableMoves s = Inr ms"
    "\<forall>b c. \<lparr> board = b, cell = c \<rparr> \<in> set ms
        \<longleftrightarrow> b \<in> set al \<and> elemAt (cells (boards s ! b)) c = Some None"
    using availableMoves_mem[OF al] by blast
  have mem: "\<forall>b c. \<lparr> board = b, cell = c \<rparr> \<in> set ms
        \<longleftrightarrow> legalBoard s b \<and> elemAt (cells (boards s ! b)) c = Some None"
    using ms(2) legalBoard_allowed[OF w al] by simp
  have emp: "openHasEmpty s \<longrightarrow>
             (ms = [] \<longleftrightarrow>
                pendingRpsBoard s \<noteq> None \<or> pendingFinalRps s
                \<or> list_all (\<lambda>b. winner b \<noteq> None) (boards s))"
    using availableMoves_Nil[OF w] ms(1) by simp
  show "\<exists>ms. availableMoves s = Inr ms
        \<and> (\<forall>b c. \<lparr> board = b, cell = c \<rparr> \<in> set ms
              \<longleftrightarrow> legalBoard s b \<and> elemAt (cells (boards s ! b)) c = Some None)
        \<and> (openHasEmpty s \<longrightarrow>
             (ms = [] \<longleftrightarrow>
                pendingRpsBoard s \<noteq> None \<or> pendingFinalRps s
                \<or> list_all (\<lambda>b. winner b \<noteq> None) (boards s)))"
    using ms(1) mem emp by blast
qed

theorem C4_legal_moves_witness:
  "wellFormed catState \<and> openHasEmpty catState
   \<and> pendingRpsBoard catState = Some 4
   \<and> availableMoves catState = Inr []
   \<and> wellFormed createInitialState
   \<and> legalBoard createInitialState 4
   \<and> (\<exists>ms. availableMoves createInitialState = Inr ms \<and> \<lparr> board = 4, cell = 4 \<rparr> \<in> set ms)"
proof -
  have c: "wellFormed catState" "openHasEmpty catState" "pendingRpsBoard catState = Some 4"
    by code_simp+
  have i: "wellFormed createInitialState" "legalBoard createInitialState 4"
    "elemAt (cells (boards createInitialState ! 4)) 4 = Some None"
    by code_simp+
  have a: "availableMoves catState = Inr []"
    using C4_legal_moves_amended[of catState] c by auto
  have b: "\<exists>ms. availableMoves createInitialState = Inr ms \<and> \<lparr> board = 4, cell = 4 \<rparr> \<in> set ms"
    using C4_legal_moves_amended[of createInitialState] i by blast
  show ?thesis using c i a b by simp
qed

text \<open>
  C4 as stated fails. In \<open>diagonalState\<close> X holds the boards 2 and 6 and board 4 waits
  for its tiebreak; O throws scissors and X throws rock, so \<open>submitRpsChoice\<close> gives
  board 4 to X and sets \<open>macroWinner\<close> to X (line 290). No tiebreak is pending in the
  state it returns, the macro winner is set, and \<open>availableMoves\<close> lists the nine cells
  of board 0.
\<close>

theorem C4_legal_moves_counterexample:
  "macroWinner (runCalls diagonalState [Micro PO scissors, Micro PX rock]) = Some PX
   \<and> pendingRpsBoard (runCalls diagonalState [Micro PO scissors, Micro PX rock]) = None
   \<and> \<not> pendingFinalRps (runCalls diagonalState [Micro PO scissors, Micro PX rock])
   \<and> (case availableMoves (runCalls diagonalState [Micro PO scissors, Micro PX rock]) of
         Inr ms \<Rightarrow> length ms = 9 \<and> elemAt ms 0 = Some \<lparr> board = 0, cell = 0 \<rparr>
       | Inl x \<Rightarrow> False)"
  by code_simp

section \<open>C5: rejected calls\<close>



section \<open>C6: closed boards are frozen\<close>

text \<open>
  C6. From any state (reachable or not), after any number of calls of \<open>playMove\<close>,
  \<open>submitRpsChoice\<close> and \<open>submitFinalRpsChoice\<close>, a micro-board whose winner was not
  \<open>null\<close> has the cells it had and still has a winner. In particular \<open>playMove\<close> into
  a closed board is rejected with the state unchanged, \<open>submitRpsChoice\<close> changes no
  cell of any board, and \<open>submitFinalRpsChoice\<close> leaves the boards as they are.
\<close>

theorem C6_closed_boards_frozen:
  "(rtranclp engineStep s s' \<and> i < length (boards s) \<and> winner (boards s ! i) \<noteq> None
      \<longrightarrow> i < length (boards s') \<and> cells (boards s' ! i) = cells (boards s ! i)
          \<and> winner (boards s' ! i) \<noteq> None)
   \<and> (playMove s i c = Inr (t, e) \<and> i < length (boards s) \<and> winner (boards s ! i) \<noteq> None
      \<longrightarrow> e \<noteq> None \<and> t = s)
   \<and> (submitRpsChoice s p ch = Inr (u, e', r) \<longrightarrow> map cells (boards u) = map cells (boards s))
   \<and> boards (fst (submitFinalRpsChoice s p ch)) = boards s"
  using engineSteps_closed[of s s'] playMove_into_closed[of s i c t e]
    submitRps_cells[of s p ch u e' r] submitFinal_boards[of s p ch]
  by auto

theorem C6_closed_boards_witness:
  "rtranclp engineStep catState (runCalls catState [Micro PO rock, Micro PX paper])
   \<and> 4 < length (boards catState)
   \<and> winner (boards catState ! 4) = Some CAT
   \<and> cells (boards (runCalls catState [Micro PO rock, Micro PX paper]) ! 4)
       = cells (boards catState ! 4)
   \<and> winner (boards (runCalls catState [Micro PO rock, Micro PX paper]) ! 4) = Some (Won PX)
   \<and> (\<exists>msg. playMove (runCalls catState [Micro PO rock, Micro PX paper]) 4 0
       = Inr (runCalls catState [Micro PO rock, Micro PX paper], Some msg))"
proof -
  let ?s = "catState"
  let ?s' = "runCalls catState [Micro PO rock, Micro PX paper]"
  have st: "rtranclp engineStep ?s ?s'"
    unfolding runCalls_def by (rule engineSteps_foldl)
  have a: "4 < length (boards ?s)" "winner (boards ?s ! 4) = Some CAT" by code_simp+
  have b: "winner (boards ?s' ! 4) = Some (Won PX)" by code_simp
  have c: "4 < length (boards ?s')" "wellFormed ?s'" "pendingRpsBoard ?s' = None" by code_simp+
  have m: "playMove ?s' 4 0 = Inr (?s', Some ''You cannot play in that board right now.'')"
    using playMove_closed[OF c(2,3), of 4 0] b by simp
  then have "Some ''You cannot play in that board right now.'' \<noteq> None \<and> ?s' = ?s'"
    using C6_closed_boards_frozen[where s = ?s' and i = 4 and c = 0 and t = ?s'
        and e = "Some ''You cannot play in that board right now.''"] b c
    by simp
  then have r: "\<exists>msg. playMove ?s' 4 0 = Inr (?s', Some msg)" using m by auto
  show ?thesis
    using C6_closed_boards_frozen[where s = ?s and s' = ?s' and i = 4] st a b r by simp
qed

section \<open>C7: the picks after a round of the micro-tiebreak\<close>

text \<open>
  C7, as amended. With a micro-tiebreak pending on board \<open>bi\<close>: when the round is
  complete and tied, \<open>submitRpsChoice\<close> returns the input state with the picks of that
  board emptied, its \<open>lastOutcome\<close> set to \<open>tie\<close> and \<open>currentPlayer\<close> set to the other
  player than the one who threw, and nothing else changed (the board stays pending);
  when the round is decisive, the picks of the board keep both throws, \<open>lastOutcome\<close>
  and \<open>winner\<close> record the winning player and \<open>pendingRpsBoard\<close> is cleared.
\<close>

theorem C7_picks_after_round:
  assumes "pendingRpsBoard s = Some bi" and "bi < length (boards s)"
  shows "(roundOutcome (thrownPicks s bi p ch) = Some CmpTie \<longrightarrow>
            submitRpsChoice s p ch =
              Inr (s\<lparr> boards := (boards s)[bi := (boards s ! bi)
                              \<lparr> rps := Some \<lparr> picks = Map.empty, lastOutcome = Some tie \<rparr> \<rparr>],
                       currentPlayer := other p \<rparr>, None, None))
       \<and> (roundOutcome (thrownPicks s bi p ch) \<in> {Some CmpA, Some CmpB} \<longrightarrow>
            (\<exists>s' r w. submitRpsChoice s p ch = Inr (s', None, Some r)
               \<and> w = (if roundOutcome (thrownPicks s bi p ch) = Some CmpA then PX else PO)
               \<and> rps (boards s' ! bi)
                   = Some \<lparr> picks = thrownPicks s bi p ch, lastOutcome = Some (OutPlayer w) \<rparr>
               \<and> winner (boards s' ! bi) = Some (Won w)
               \<and> pendingRpsBoard s' = None))"
  using assms
  by (auto simp: submitRpsChoice_pending[OF assms] rpsReturn_def Let_def)

theorem C7_picks_witness:
  "pendingRpsBoard (runCalls catState [Micro PO rock]) = Some 4
   \<and> 4 < length (boards (runCalls catState [Micro PO rock]))
   \<and> roundOutcome (thrownPicks (runCalls catState [Micro PO rock]) 4 PX rock) = Some CmpTie
   \<and> submitRpsChoice (runCalls catState [Micro PO rock]) PX rock =
        Inr ((runCalls catState [Micro PO rock])
               \<lparr> boards := (boards (runCalls catState [Micro PO rock]))
                   [4 := (boards (runCalls catState [Micro PO rock]) ! 4)
                      \<lparr> rps := Some \<lparr> picks = Map.empty, lastOutcome = Some tie \<rparr> \<rparr>],
                 currentPlayer := other PX \<rparr>, None, None)
   \<and> roundOutcome (thrownPicks (runCalls catState [Micro PO rock]) 4 PX paper) = Some CmpA
   \<and> (\<exists>s' r. submitRpsChoice (runCalls catState [Micro PO rock]) PX paper = Inr (s', None, Some r)
         \<and> rps (boards s' ! 4)
             = Some \<lparr> picks = thrownPicks (runCalls catState [Micro PO rock]) 4 PX paper,
                      lastOutcome = Some (OutPlayer PX) \<rparr>
         \<and> winner (boards s' ! 4) = Some (Won PX)
         \<and> pendingRpsBoard s' = None)"
proof -
  let ?s = "runCalls catState [Micro PO rock]"
  have a: "pendingRpsBoard ?s = Some 4" by code_simp
  have b: "4 < length (boards ?s)" by code_simp
  have t: "roundOutcome (thrownPicks ?s 4 PX rock) = Some CmpTie" by code_simp
  have d: "roundOutcome (thrownPicks ?s 4 PX paper) = Some CmpA" by code_simp
  show ?thesis
    using C7_picks_after_round[OF a b, of PX rock] C7_picks_after_round[OF a b, of PX paper] a b t d
    by simp
qed

text \<open>
  C7 as stated fails on a decisive round: the code stores \<open>rps: { picks, lastOutcome:
  winningPlayer }\<close>, with both throws. In \<open>catState\<close> board 4 is a cat's game; O throws
  rock and X throws paper: the picks of board 4 hold paper for X and rock for O.
\<close>

theorem C7_picks_counterexample:
  "pendingRpsBoard (runCalls catState [Micro PO rock]) = Some 4
   \<and> map_option (\<lambda>r. (picks r PX, picks r PO, lastOutcome r))
        (rps (boards (runCalls catState [Micro PO rock, Micro PX paper]) ! 4))
       = Some (Some paper, Some rock, Some (OutPlayer PX))"
  by code_simp

section \<open>C8: the turn after a throw in the micro-tiebreak\<close>

text \<open>
  C8 says that a successful \<open>submitRpsChoice\<close> always passes the turn to the other
  player than the one who threw. The code does so when the round is incomplete or tied,
  but not when the throw resolves the board: it returns \<open>currentPlayer: nextTurn\<close>,
  where \<open>nextTurn\<close> is the \<open>currentPlayer\<close> of the state passed in (line 247). In
  \<open>catState\<close> X has filled board 4 and O is the current player. O throws rock and the
  turn passes to X; X throws paper, which resolves the board: the call succeeds and
  \<open>currentPlayer\<close> is still X, the player who threw and who placed the last mark, with
  \<open>nextBoard\<close> still the board 0 that this mark chose for O.
\<close>

theorem C8_decisive_throw_keeps_turn:
  "pendingRpsBoard catState = Some 4
   \<and> currentPlayer catState = PO
   \<and> currentPlayer (runCalls catState [Micro PO rock]) = PX
   \<and> (case submitRpsChoice (runCalls catState [Micro PO rock]) PX paper of
         Inr (s', e, r) \<Rightarrow>
           e = None \<and> r \<noteq> None \<and> currentPlayer s' = PX \<and> nextBoard s' = Some 0
       | Inl x \<Rightarrow> False)"
  by code_simp

section \<open>C9: the AI chooses a legal move\<close>

text \<open>
  C9 says that \<open>chooseAIMove\<close> returns a legal move or \<open>null\<close> for every state and every
  level. For every level but \<open>easy\<close> the code tries each move with \<open>playMove\<close> (line
  413), and \<open>playMove\<close> throws on a move that passes its checks: on the initial state,
  where \<open>availableMoves\<close> lists 81 moves, \<open>chooseAIMove\<close> throws a \<open>ReferenceError\<close> at
  the levels \<open>none\<close>, \<open>smart\<close> and \<open>hard\<close> and returns nothing.
\<close>

theorem C9_search_levels_throw:
  "(case availableMoves createInitialState of Inr ms \<Rightarrow> length ms = 81 | Inl x \<Rightarrow> False)
   \<and> chooseAIMove createInitialState none 0 = Inl ReferenceError
   \<and> chooseAIMove createInitialState smart 0 = Inl ReferenceError
   \<and> chooseAIMove createInitialState hard 0 = Inl ReferenceError"
proof -
  have n: "(case availableMoves createInitialState of
              Inr ms \<Rightarrow> length ms = 81 | Inl x \<Rightarrow> False)" by code_simp
  then obtain ms where ms0: "availableMoves createInitialState = Inr ms" "length ms = 81"
    by (auto split: sum.splits)
  have ms: "availableMoves createInitialState = Inr ms" "ms \<noteq> []"
    using ms0 by auto
  show ?thesis
    using n chooseAIMove_throw[OF ms, of none 0] chooseAIMove_throw[OF ms, of smart 0]
      chooseAIMove_throw[OF ms, of hard 0]
    by simp
qed

section \<open>C10: serialization round trip and fallback\<close>

text \<open>
  C10, as amended. For every \<open>GameState\<close> with nine boards, parsing its serialization
  gives back the serialized state, which is the serialization of no other state. With
  no parsed value (\<open>raw\<close> null, undefined or empty, or unparseable) and for every parsed
  value that is not an object with a truthy \<open>boards\<close> of length 9, \<open>parseState\<close> returns
  \<open>createInitialState()\<close>. For an object that passes that test it returns the spread of
  the initial state and the parsed object: each property the parsed object has, with
  its parsed value, and each other property of the initial state with its initial
  value; nothing else is checked.
\<close>

theorem C10_roundtrip_and_fallback:
  "(length (boards s) = 9 \<longrightarrow>
      parseState (Some (serializeState s)) = serializeState s
      \<and> (\<forall>s'. serializeState s' = parseState (Some (serializeState s)) \<longrightarrow> s' = s))
   \<and> parseState None = serializeState createInitialState
   \<and> (\<not> hasNineBoards parsed \<longrightarrow> parseState (Some parsed) = serializeState createInitialState)
   \<and> (hasNineBoards (JObj kv) \<longrightarrow>
        (\<exists>fs. parseState (Some (JObj kv)) = JObj fs
           \<and> (\<forall>k. map_of fs k =
                 (case map_of kv k of
                    Some v \<Rightarrow> Some v
                  | None \<Rightarrow> map_of (stateFields createInitialState) k))))"
proof (intro conjI impI)
  assume n: "length (boards s) = 9"
  show "parseState (Some (serializeState s)) = serializeState s"
    by (rule parseState_roundtrip[OF n])
  then show "\<forall>s'. serializeState s' = parseState (Some (serializeState s)) \<longrightarrow> s' = s"
    by (simp add: serializeState_inj)
next
  show "parseState None = serializeState createInitialState" by (simp add: parseState_def)
next
  assume "\<not> hasNineBoards parsed"
  then show "parseState (Some parsed) = serializeState createInitialState"
    by (rule parseState_fallback)
next
  assume "hasNineBoards (JObj kv)"
  then have "parseState (Some (JObj kv)) = JObj (spread (stateFields createInitialState) kv)"
    by (rule parseState_merge)
  then show "\<exists>fs. parseState (Some (JObj kv)) = JObj fs
           \<and> (\<forall>k. map_of fs k =
                 (case map_of kv k of
                    Some v \<Rightarrow> Some v
                  | None \<Rightarrow> map_of (stateFields createInitialState) k))"
    using spread_lookup by blast
qed

theorem C10_roundtrip_witness:
  "length (boards catState) = 9
   \<and> parseState (Some (serializeState catState)) = serializeState catState
   \<and> \<not> hasNineBoards (JObj [(''boards'', JArr (replicate 8 JNull))])
   \<and> parseState (Some (JObj [(''boards'', JArr (replicate 8 JNull))]))
       = serializeState createInitialState
   \<and> hasNineBoards (JObj [(''boards'', JArr (replicate 9 JNull))])
   \<and> (\<exists>fs. parseState (Some (JObj [(''boards'', JArr (replicate 9 JNull))])) = JObj fs
         \<and> map_of fs ''boards'' = Some (JArr (replicate 9 JNull))
         \<and> map_of fs ''currentPlayer'' = Some (JStr ''X''))"
proof -
  have n: "length (boards catState) = 9" by code_simp
  have a: "\<not> hasNineBoards (JObj [(''boards'', JArr (replicate 8 JNull))])" by code_simp
  have b: "hasNineBoards (JObj [(''boards'', JArr (replicate 9 JNull))])" by code_simp
  have i: "map_of (stateFields createInitialState) ''currentPlayer'' = Some (JStr ''X'')"
    by code_simp
  from C10_roundtrip_and_fallback[where kv = "[(''boards'', JArr (replicate 9 JNull))]"] b
  obtain fs where fs: "parseState (Some (JObj [(''boards'', JArr (replicate 9 JNull))])) = JObj fs"
    "\<forall>k. map_of fs k =
        (case map_of [(''boards'', JArr (replicate 9 JNull))] k of
           Some v \<Rightarrow> Some v
         | None \<Rightarrow> map_of (stateFields createInitialState) k)"
    by blast
  have "map_of fs ''boards'' = Some (JArr (replicate 9 JNull))"
    "map_of fs ''currentPlayer'' = Some (JStr ''X'')"
    using fs(2) i by simp_all
  then have c: "\<exists>fs. parseState (Some (JObj [(''boards'', JArr (replicate 9 JNull))])) = JObj fs
         \<and> map_of fs ''boards'' = Some (JArr (replicate 9 JNull))
         \<and> map_of fs ''currentPlayer'' = Some (JStr ''X'')"
    using fs(1) by blast
  show ?thesis
    using C10_roundtrip_and_fallback[where s = "catState"
        and parsed = "JObj [(''boards'', JArr (replicate 8 JNull))]"] n a b c
    by simp
qed

text \<open>
  C10 as stated fails on a structurally invalid input that has a \<open>boards\<close> array of
  length 9: for the text \<open>{"boards":[null,null,null,null,null,null,null,null,null]}\<close>
  \<open>parseState\<close> returns the initial state with \<open>boards\<close> replaced by the nine nulls,
  which is not \<open>createInitialState()\<close>.
\<close>

theorem C10_fallback_counterexample:
  "hasNineBoards (JObj [(''boards'', JArr (replicate 9 JNull))])
   \<and> parseState (Some (JObj [(''boards'', JArr (replicate 9 JNull))]))
       = JObj ((''boards'', JArr (replicate 9 JNull)) # tl (stateFields createInitialState))
   \<and> parseState (Some (JObj [(''boards'', JArr (replicate 9 JNull))]))
       \<noteq> serializeState createInitialState"
  by code_simp

section \<open>X1: dominance among the five throws\<close>

text \<open>
  X1. \<open>compareRps\<close> reports a tie exactly for two equal throws, and for any two throws
  it reports that the first wins exactly when, with the throws swapped, it reports that
  the second wins: of two distinct throws exactly one dominates the other, and no throw
  dominates itself.
\<close>

theorem X1_rpsls_dominance:
  "(compareRps a b = CmpTie) = (a = b)
   \<and> (compareRps a b = CmpA) = (compareRps b a = CmpB)
   \<and> (compareRps a b = CmpB) = (compareRps b a = CmpA)"
  by (cases a; cases b) (simp_all add: compareRps_def RPS_RULES_def)

section \<open>X2: a resolved micro-tiebreak arms the galaxy tiebreak\<close>

text \<open>
  X2. Whenever a successful call of \<open>submitRpsChoice\<close> returns a state in which every
  micro-board is closed, no macro winner is set and no micro-tiebreak is pending, that
  state has \<open>pendingFinalRps\<close> set, and its \<open>finalRps\<close> is the fresh one (no picks, score
  0 for X and for O, no rounds) when the input state had none, else the one the input
  state had.
\<close>

theorem X2_resolution_arms_galaxy_tiebreak:
  "submitRpsChoice s p ch = Inr (t', None, r)
      \<and> list_all (\<lambda>b. winner b \<noteq> None) (boards t') \<and> macroWinner t' = None
      \<and> pendingRpsBoard t' = None
     \<longrightarrow> pendingFinalRps t'
         \<and> finalRps t' = (case finalRps s of None \<Rightarrow> Some emptyFinalRps | Some f \<Rightarrow> Some f)"
proof (intro conjI impI)
  assume a: "submitRpsChoice s p ch = Inr (t', None, r)
      \<and> list_all (\<lambda>b. winner b \<noteq> None) (boards t') \<and> macroWinner t' = None
      \<and> pendingRpsBoard t' = None"
  from a submitRpsChoice_cases[of s p ch t' None r]
  show "pendingFinalRps t'"
    by (auto simp: rpsReturn_fields)
  from a submitRpsChoice_cases[of s p ch t' None r]
  show "finalRps t' = (case finalRps s of None \<Rightarrow> Some emptyFinalRps | Some f \<Rightarrow> Some f)"
    by (auto simp: rpsReturn_fields)
qed

theorem X2_resolution_arms_witness:
  "(case submitRpsChoice (runCalls lastCatState [Micro PO scissors]) PX rock of
      Inr (t', e, r) \<Rightarrow> e = None \<and> list_all (\<lambda>b. winner b \<noteq> None) (boards t')
         \<and> macroWinner t' = None \<and> pendingRpsBoard t' = None
         \<and> pendingFinalRps t' \<and> finalRps t' = Some emptyFinalRps
    | Inl x \<Rightarrow> False)"
proof -
  let ?s = "runCalls lastCatState [Micro PO scissors]"
  have "(case submitRpsChoice ?s PX rock of
      Inr (t', e, r) \<Rightarrow> e = None \<and> list_all (\<lambda>b. winner b \<noteq> None) (boards t')
         \<and> macroWinner t' = None \<and> pendingRpsBoard t' = None
    | Inl x \<Rightarrow> False)" by code_simp
  then obtain t' r where t: "submitRpsChoice ?s PX rock = Inr (t', None, r)"
      "list_all (\<lambda>b. winner b \<noteq> None) (boards t')" "macroWinner t' = None"
      "pendingRpsBoard t' = None"
    by (auto split: sum.splits)
  have f1: "finalRps ?s = None" by code_simp
  show ?thesis
    using X2_resolution_arms_galaxy_tiebreak[where s = ?s and p = PX and ch = rock
        and t' = t' and r = r] t f1
    by simp
qed

section \<open>X3: what the AI returns is legal\<close>

text \<open>
  X3. For every state, every AI level and every value of \<open>Math.random()\<close> in \<open>[0, 1)\<close>:
  whenever \<open>chooseAIMove\<close> returns, its result is a move of \<open>availableMoves(state)\<close> or
  \<open>null\<close>, and it is \<open>null\<close> only when \<open>availableMoves(state)\<close> is empty; and at the
  level \<open>easy\<close> it does return on every well-formed state.
\<close>

theorem X3_ai_result_is_legal:
  assumes "0 \<le> rnd" and "rnd < 1"
  shows "(\<forall>r. chooseAIMove s level rnd = Inr r \<longrightarrow>
            (\<exists>ms. availableMoves s = Inr ms
               \<and> (case r of None \<Rightarrow> ms = [] | Some m \<Rightarrow> m \<in> set ms)))
       \<and> (wellFormed s \<longrightarrow> (\<exists>r. chooseAIMove s easy rnd = Inr r))"
  using chooseAIMove_sound[OF assms] chooseAIMove_easy_total by blast

theorem X3_ai_result_witness:
  "(0::rat) \<le> 1 / 2 \<and> (1::rat) / 2 < 1
   \<and> wellFormed createInitialState
   \<and> chooseAIMove createInitialState easy (1 / 2) = Inr (Some \<lparr> board = 4, cell = 4 \<rparr>)
   \<and> (\<exists>ms. availableMoves createInitialState = Inr ms \<and> \<lparr> board = 4, cell = 4 \<rparr> \<in> set ms)"
proof -
  have a: "(0::rat) \<le> 1 / 2" "(1::rat) / 2 < 1" by simp_all
  have w: "wellFormed createInitialState" by (rule wellFormed_init)
  have c: "chooseAIMove createInitialState easy (1 / 2) = Inr (Some \<lparr> board = 4, cell = 4 \<rparr>)"
    by code_simp
  show ?thesis
    using X3_ai_result_is_legal[OF a, of createInitialState easy] a w c by auto
qed

end
